theory Spec2Isabelle
  imports Main "HOL-Library.Word" "HOL-Library.List_Lexorder"
begin

unbundle bit_operations_syntax

section \<open>Bytes, C strings and big-endian packing\<close>

type_synonym byte = "8 word"
type_synonym bytes = "byte list"

definition byte_of_char :: "char \<Rightarrow> byte" where
  "byte_of_char c = of_nat (of_char c)"

definition cstr :: "string \<Rightarrow> bytes" where
  "cstr s = map byte_of_char s"

text \<open>
  Modelled from the spec: \<^verbatim>\<open>util/packed.h\<close> is not among the sources. Section 3 of the
  specification fixes the byte order of every \<^verbatim>\<open>pack_to_be*\<close> / \<^verbatim>\<open>unpack_from_be*\<close>
  helper: most significant byte first.
\<close>

definition pack_to_be16 :: "16 word \<Rightarrow> bytes" where
  "pack_to_be16 w = [ucast (drop_bit 8 w), ucast w]"

definition pack_to_be32 :: "32 word \<Rightarrow> bytes" where
  "pack_to_be32 w = [ucast (drop_bit 24 w), ucast (drop_bit 16 w), ucast (drop_bit 8 w), ucast w]"

definition pack_to_be64 :: "64 word \<Rightarrow> bytes" where
  "pack_to_be64 w =
     [ucast (drop_bit 56 w), ucast (drop_bit 48 w), ucast (drop_bit 40 w), ucast (drop_bit 32 w),
      ucast (drop_bit 24 w), ucast (drop_bit 16 w), ucast (drop_bit 8 w), ucast w]"

definition unpack_from_be16 :: "bytes \<Rightarrow> 16 word" where
  "unpack_from_be16 bs = foldl (\<lambda>a b. push_bit 8 a OR ucast b) 0 (take 2 bs)"

definition unpack_from_be32 :: "bytes \<Rightarrow> 32 word" where
  "unpack_from_be32 bs = foldl (\<lambda>a b. push_bit 8 a OR ucast b) 0 (take 4 bs)"

definition unpack_from_be64 :: "bytes \<Rightarrow> 64 word" where
  "unpack_from_be64 bs = foldl (\<lambda>a b. push_bit 8 a OR ucast b) 0 (take 8 bs)"

text \<open>
  \<^verbatim>\<open>mstor_do_chunkalloc\<close> hands the engine the in-memory image of a \<^verbatim>\<open>uint64_t\<close> and of a
  \<^verbatim>\<open>uint32_t\<close> array. What these bytes are depends on the byte order of the host.
\<close>

datatype byte_order = LITTLE_ENDIAN | BIG_ENDIAN

definition host_bytes64 :: "byte_order \<Rightarrow> 64 word \<Rightarrow> bytes" where
  "host_bytes64 ho w = (case ho of BIG_ENDIAN \<Rightarrow> pack_to_be64 w | LITTLE_ENDIAN \<Rightarrow> rev (pack_to_be64 w))"

definition host_bytes32 :: "byte_order \<Rightarrow> 32 word \<Rightarrow> bytes" where
  "host_bytes32 ho w = (case ho of BIG_ENDIAN \<Rightarrow> pack_to_be32 w | LITTLE_ENDIAN \<Rightarrow> rev (pack_to_be32 w))"

section \<open>The ordered key-value engine\<close>

text \<open>
  The engine (LevelDB behind its C interface) is an ordered map from byte strings to byte
  strings under the bytewise comparator: the lexicographic order of unsigned bytes, a proper
  prefix first. A database is the list of its entries in strictly ascending key order.
  Engine failures (the \<^verbatim>\<open>err\<close> out-parameter) and allocation failures are not modelled:
  every engine call and every \<^verbatim>\<open>calloc\<close> succeeds.
\<close>

type_synonym ldb = "(bytes \<times> bytes) list"

definition ldb_sorted :: "ldb \<Rightarrow> bool" where
  "ldb_sorted db = sorted_wrt (<) (map fst db)"

definition leveldb_get :: "ldb \<Rightarrow> bytes \<Rightarrow> bytes option" where
  "leveldb_get db k = map_of db k"

fun leveldb_put :: "ldb \<Rightarrow> bytes \<Rightarrow> bytes \<Rightarrow> ldb" where
  "leveldb_put [] k v = [(k, v)]"
| "leveldb_put ((k', v') # db) k v =
     (if k < k' then (k, v) # (k', v') # db
      else if k = k' then (k, v) # db
      else (k', v') # leveldb_put db k v)"

definition leveldb_delete :: "ldb \<Rightarrow> bytes \<Rightarrow> ldb" where
  "leveldb_delete db k = filter (\<lambda>e. fst e \<noteq> k) db"

datatype batch_op = Put bytes bytes | Delete bytes

type_synonym leveldb_writebatch = "batch_op list"

definition leveldb_writebatch_put :: "leveldb_writebatch \<Rightarrow> bytes \<Rightarrow> bytes \<Rightarrow> leveldb_writebatch" where
  "leveldb_writebatch_put bat k v = bat @ [Put k v]"

definition leveldb_writebatch_delete :: "leveldb_writebatch \<Rightarrow> bytes \<Rightarrow> leveldb_writebatch" where
  "leveldb_writebatch_delete bat k = bat @ [Delete k]"

fun apply_batch_op :: "ldb \<Rightarrow> batch_op \<Rightarrow> ldb" where
  "apply_batch_op db (Put k v) = leveldb_put db k v"
| "apply_batch_op db (Delete k) = leveldb_delete db k"

definition leveldb_write :: "ldb \<Rightarrow> leveldb_writebatch \<Rightarrow> ldb" where
  "leveldb_write db bat = foldl apply_batch_op db bat"

text \<open>
  An iterator is a cursor into the entry list: the entries before the cursor (nearest
  first) and the entries from the cursor on. It is valid when an entry is under the cursor.
  The engine requires a valid iterator for \<^verbatim>\<open>Prev\<close> and \<^verbatim>\<open>Next\<close>; a call on an invalid
  iterator has no defined result and is \<open>None\<close> here.
\<close>

type_synonym leveldb_iterator = "(bytes \<times> bytes) list \<times> (bytes \<times> bytes) list"

definition leveldb_iter_seek :: "ldb \<Rightarrow> bytes \<Rightarrow> leveldb_iterator" where
  "leveldb_iter_seek db k =
     (rev (takeWhile (\<lambda>e. fst e < k) db), dropWhile (\<lambda>e. fst e < k) db)"

definition leveldb_iter_seek_to_first :: "ldb \<Rightarrow> leveldb_iterator" where
  "leveldb_iter_seek_to_first db = ([], db)"

definition leveldb_iter_valid :: "leveldb_iterator \<Rightarrow> bool" where
  "leveldb_iter_valid it = (snd it \<noteq> [])"

fun leveldb_iter_prev :: "leveldb_iterator \<Rightarrow> leveldb_iterator option" where
  "leveldb_iter_prev (b, []) = None"
| "leveldb_iter_prev ([], x # a) = Some ([], [])"
| "leveldb_iter_prev (y # b, x # a) = Some (b, y # x # a)"

fun leveldb_iter_next :: "leveldb_iterator \<Rightarrow> leveldb_iterator option" where
  "leveldb_iter_next (b, []) = None"
| "leveldb_iter_next (b, x # a) = Some (x # b, a)"

section \<open>Constants, errors and records of the metadata store\<close>

datatype error =
    EPERM | ENOENT | EIO | ENOMEM | EEXIST | ENOTDIR | EISDIR | EINVAL | ENAMETOOLONG
  | ENOSYS | ENOTEMPTY | ENOTSUP | EOVERFLOW | EUSERS
  | ABORT \<comment> \<open>the process called \<^verbatim>\<open>abort()\<close>\<close>
  | UNDEFINED \<comment> \<open>the C code leaves the defined behaviour of the language or of the engine\<close>

text \<open>
  The headers \<^verbatim>\<open>mds/mstor.h\<close>, \<^verbatim>\<open>mds/limits.h\<close>, \<^verbatim>\<open>mds/user.h\<close>, \<^verbatim>\<open>jorm/jorm_const.h\<close>,
  \<^verbatim>\<open>util/path.h\<close> and \<^verbatim>\<open>util/string.h\<close> are not among the sources. The constants they
  define, the byte order of the host and the path canonicaliser (\<^verbatim>\<open>canonicalize_path\<close>, which
  returns an error or the canonical path) are parameters of the model. \<^verbatim>\<open>zsnprintf\<close> is taken
  to report truncation, as \<^verbatim>\<open>snprintf\<close> does: a path of \<^verbatim>\<open>RF_PATH_MAX\<close> bytes or more does not
  fit the walker's buffer.
\<close>

record platform =
  MNODE_IS_DIR :: "16 word"
  RF_SUPERUSER_UID :: "32 word"
  RF_SUPERUSER_GID :: "32 word"
  RF_PCOMP_MAX :: nat
  RF_PATH_MAX :: nat
  RF_MAX_OID :: int
  JORM_INVAL_INT :: int
  RF_INVAL_TIME :: "64 word"
  host_order :: byte_order
  canonicalize_path :: "string \<Rightarrow> error + string"

definition MSTOR_DEFAULT_SEQUESTER_TIME :: int where "MSTOR_DEFAULT_SEQUESTER_TIME = 300"
definition MSTOR_DEFAULT_MIN_REPL :: int where "MSTOR_DEFAULT_MIN_REPL = 2"
definition MSTOR_DEFAULT_MAN_REPL :: int where "MSTOR_DEFAULT_MAN_REPL = 3"
definition MSTOR_CUR_VERSION :: "32 word" where "MSTOR_CUR_VERSION = 1"
definition MSTOR_VERSION_MAGIC :: bytes where "MSTOR_VERSION_MAGIC = cstr ''Fish''"
definition MSTOR_VERSION_MAGIC_LEN :: nat where "MSTOR_VERSION_MAGIC_LEN = 4"
definition MSTOR_VERSION_BODY_LEN :: nat where "MSTOR_VERSION_BODY_LEN = 8"
definition MSTOR_VERSION_INVAL :: "32 word" where "MSTOR_VERSION_INVAL = 0xffffffff"
definition MSTOR_ROOT_NID :: "64 word" where "MSTOR_ROOT_NID = 0"
definition MSTOR_PERM_EXEC :: "32 word" where "MSTOR_PERM_EXEC = 1"
definition MSTOR_PERM_WRITE :: "32 word" where "MSTOR_PERM_WRITE = 2"
definition MSTOR_PERM_READ :: "32 word" where "MSTOR_PERM_READ = 4"
definition MSTOR_NID_MAX :: "64 word" where "MSTOR_NID_MAX = 0xffffffffffff0000"
definition MSTOR_CID_MAX :: "64 word" where "MSTOR_CID_MAX = 0xffffffffffff0000"
definition MNODE_KEY_LEN :: nat where "MNODE_KEY_LEN = 9"
definition MCHILD_KEY_LEN_PREFIX :: nat where "MCHILD_KEY_LEN_PREFIX = 9"
definition MCHUNK_KEY_LEN :: nat where "MCHUNK_KEY_LEN = 9"
definition MFILE_KEY_LEN :: nat where "MFILE_KEY_LEN = 17"
definition MREQ_FLAG_CHECK_PERMS :: "32 word" where "MREQ_FLAG_CHECK_PERMS = 1"

definition MSTOR_ROOT_NID_INIT_MODE :: "platform \<Rightarrow> 16 word" where
  "MSTOR_ROOT_NID_INIT_MODE P = (0x1ED OR MNODE_IS_DIR P)" \<comment> \<open>octal 0755\<close>

text \<open>
  Modelled from the spec: \<^verbatim>\<open>struct user\<close> and \<^verbatim>\<open>user_in_gid\<close> live in \<^verbatim>\<open>mds/user.h\<close>.
  Section 6 describes a user as its uid, its gid and its group membership, and
  \<^verbatim>\<open>user_in_gid(user, gid)\<close> as the membership test.
\<close>

record user =
  uid :: "32 word"
  gid :: "32 word"
  segid :: "32 word list"

definition user_in_gid :: "user \<Rightarrow> 32 word \<Rightarrow> bool" where
  "user_in_gid u g = (gid u = g \<or> g \<in> set (segid u))"

text \<open>
  Modelled from the spec: the user directory (\<^verbatim>\<open>struct udata\<close>) maps a user name to its
  user; a name it does not know is an error.
\<close>

definition udata_lookup_user :: "(string \<times> user) list \<Rightarrow> string \<Rightarrow> user option" where
  "udata_lookup_user ud name = map_of ud name"

text \<open>
  \<^verbatim>\<open>struct mnode\<close>: a node id and a pointer to the fetched payload (\<open>None\<close> is the null
  pointer of a zeroed node).
\<close>

record mnode =
  nid :: "64 word"
  val :: "bytes option"

definition zero_mnode :: mnode where
  "zero_mnode = \<lparr>nid = 0, val = None\<rparr>"

text \<open>
  \<^verbatim>\<open>struct mnode_payload\<close> is packed: mtime at byte 0, atime at 8, length at 16, uid at 24,
  gid at 28, mode_and_type at 32; 34 bytes in all. The fields hold big-endian values and
  the code reads and writes them in place.
\<close>

definition sizeof_mnode_payload :: nat where "sizeof_mnode_payload = 34"

definition get_mtime :: "bytes \<Rightarrow> 64 word" where "get_mtime v = unpack_from_be64 v"
definition get_atime :: "bytes \<Rightarrow> 64 word" where "get_atime v = unpack_from_be64 (drop 8 v)"
definition get_length :: "bytes \<Rightarrow> 64 word" where "get_length v = unpack_from_be64 (drop 16 v)"
definition get_uid :: "bytes \<Rightarrow> 32 word" where "get_uid v = unpack_from_be32 (drop 24 v)"
definition get_gid :: "bytes \<Rightarrow> 32 word" where "get_gid v = unpack_from_be32 (drop 28 v)"
definition get_mode_and_type :: "bytes \<Rightarrow> 16 word" where
  "get_mode_and_type v = unpack_from_be16 (drop 32 v)"

definition set_mtime :: "bytes \<Rightarrow> 64 word \<Rightarrow> bytes" where
  "set_mtime v x = pack_to_be64 x @ drop 8 v"
definition set_atime :: "bytes \<Rightarrow> 64 word \<Rightarrow> bytes" where
  "set_atime v x = take 8 v @ pack_to_be64 x @ drop 16 v"
definition set_length :: "bytes \<Rightarrow> 64 word \<Rightarrow> bytes" where
  "set_length v x = take 16 v @ pack_to_be64 x @ drop 24 v"
definition set_uid :: "bytes \<Rightarrow> 32 word \<Rightarrow> bytes" where
  "set_uid v x = take 24 v @ pack_to_be32 x @ drop 28 v"
definition set_gid :: "bytes \<Rightarrow> 32 word \<Rightarrow> bytes" where
  "set_gid v x = take 28 v @ pack_to_be32 x @ drop 32 v"
definition set_mode_and_type :: "bytes \<Rightarrow> 16 word \<Rightarrow> bytes" where
  "set_mode_and_type v x = take 32 v @ pack_to_be16 x @ drop 34 v"

text \<open>
  The requests. Each constructor carries the input fields of its \<^verbatim>\<open>struct mreq_*\<close>.
  Listdir, stat and chown requests are outside this development.
\<close>

datatype mstor_op_ty =
    MSTOR_OP_CREAT "16 word" "64 word" \<comment> \<open>mode, ctime\<close>
  | MSTOR_OP_OPEN "64 word" \<comment> \<open>atime\<close>
  | MSTOR_OP_CHUNKFIND "64 word" "64 word" int \<comment> \<open>start, end, max_cinfos\<close>
  | MSTOR_OP_CHUNKALLOC "64 word" "64 word" \<comment> \<open>nid, off\<close>
  | MSTOR_OP_MKDIRS "16 word" "64 word" \<comment> \<open>mode, ctime\<close>
  | MSTOR_OP_CHMOD "16 word" \<comment> \<open>mode\<close>
  | MSTOR_OP_UTIMES "64 word" "64 word" \<comment> \<open>atime, mtime\<close>
  | MSTOR_OP_RMDIR bool \<comment> \<open>rmr\<close>
  | MSTOR_OP_SEQUESTER_TREE
  | MSTOR_OP_FIND_SEQUESTERED
  | MSTOR_OP_DESTROY_SEQUESTERED
  | MSTOR_OP_RENAME

record mreq =
  op :: mstor_op_ty
  flags :: "32 word"
  user_name :: string
  user :: user
  full_path :: string

record chunk_info =
  cid :: "64 word"
  start :: "64 word"

text \<open>What a successful request writes into the out-fields of its \<^verbatim>\<open>struct mreq_*\<close>.\<close>

datatype reply =
    NoReply
  | ReplyNid "64 word"
  | ReplyCinfos "chunk_info list"
  | ReplyChunk "64 word" "32 word list"

text \<open>
  Modelled from the spec: \<^verbatim>\<open>struct mstorc\<close> is declared in \<^verbatim>\<open>common/config/mstorc.h\<close>,
  which is not among the sources; its fields are the configuration options of section 6.
\<close>

record mstorc =
  mstor_path :: string
  mstor_create :: int
  mstor_cache_size :: int
  mstorc_min_sequester_time :: int
  mstorc_min_repl :: int
  mstorc_man_repl :: int

record mstor =
  ldb :: ldb
  next_nid :: "64 word"
  min_sequester_time :: int
  min_repl :: int
  man_repl :: int
  next_cid :: "64 word"
  udata :: "(string \<times> user) list"

section \<open>Keys\<close>

definition mnode_key :: "64 word \<Rightarrow> bytes" where
  "mnode_key n = byte_of_char CHR ''n'' # pack_to_be64 n"

definition mchunk_key :: "64 word \<Rightarrow> bytes" where
  "mchunk_key c = byte_of_char CHR ''h'' # pack_to_be64 c"

definition mfile_key :: "64 word \<Rightarrow> 64 word \<Rightarrow> bytes" where
  "mfile_key n off = byte_of_char CHR ''f'' # pack_to_be64 n @ pack_to_be64 off"

definition mchild_prefix :: "64 word \<Rightarrow> bytes" where
  "mchild_prefix n = byte_of_char CHR ''c'' # pack_to_be64 n"

text \<open>
  A path component reaches the handlers as a C string; \<open>pcomp\<close> is its bytes, without the
  terminator. The child key is built in a buffer of \<^verbatim>\<open>1 + 8 + RF_PCOMP_MAX\<close> bytes:
  \<^verbatim>\<open>snprintf(ckey + 9, RF_PCOMP_MAX, "%s", pcomp)\<close> writes at most \<^verbatim>\<open>RF_PCOMP_MAX - 1\<close>
  bytes of the name and a terminator, while the key length handed to the engine is
  \<^verbatim>\<open>9 + strlen(pcomp)\<close>. A name of exactly \<^verbatim>\<open>RF_PCOMP_MAX\<close> bytes gives the truncated
  name followed by the terminator; a longer one makes the engine read past the buffer.
\<close>

definition mchild_key :: "platform \<Rightarrow> 64 word \<Rightarrow> bytes \<Rightarrow> bytes option" where
  "mchild_key P n pcomp =
     (if length pcomp < RF_PCOMP_MAX P then Some (mchild_prefix n @ pcomp)
      else if length pcomp = RF_PCOMP_MAX P \<and> 0 < RF_PCOMP_MAX P
        then Some (mchild_prefix n @ take (RF_PCOMP_MAX P - 1) pcomp @ [0])
      else None)"

section \<open>Identifier allocation\<close>

definition mstor_next_nid :: "mstor \<Rightarrow> mstor \<times> (error + 64 word)" where
  "mstor_next_nid m =
     (let n = next_nid m; m' = m\<lparr>next_nid := n + 1\<rparr>
      in if n > MSTOR_NID_MAX then (m', Inl ABORT) else (m', Inr n))"

definition mstor_next_cid :: "mstor \<Rightarrow> mstor \<times> (error + 64 word)" where
  "mstor_next_cid m =
     (let c = next_cid m; m' = m\<lparr>next_cid := c + 1\<rparr>
      in if c > MSTOR_NID_MAX then (m', Inl ABORT) else (m', Inr c))"

section \<open>Version stamp, bootstrap and recovery\<close>

definition mstor_parse_version :: "bytes \<Rightarrow> 32 word" where
  "mstor_parse_version v =
     (if length v \<noteq> MSTOR_VERSION_BODY_LEN then MSTOR_VERSION_INVAL
      else if take MSTOR_VERSION_MAGIC_LEN v \<noteq> MSTOR_VERSION_MAGIC then MSTOR_VERSION_INVAL
      else unpack_from_be32 (drop MSTOR_VERSION_MAGIC_LEN v))"

text \<open>A missing version record reaches \<^verbatim>\<open>mstor_parse_version\<close> with length 0.\<close>

definition mstor_read_version :: "mstor \<Rightarrow> 32 word" where
  "mstor_read_version m =
     (case leveldb_get (ldb m) (cstr ''v'') of
        None \<Rightarrow> mstor_parse_version []
      | Some v \<Rightarrow> mstor_parse_version v)"

definition mstor_write_version :: "mstor \<Rightarrow> 32 word \<Rightarrow> mstor" where
  "mstor_write_version m vers =
     m\<lparr>ldb := leveldb_put (ldb m) (cstr ''v'') (MSTOR_VERSION_MAGIC @ pack_to_be32 vers)\<rparr>"

definition mstor_leveldb_is_empty :: "mstor \<Rightarrow> bool" where
  "mstor_leveldb_is_empty m = (\<not> leveldb_iter_valid (leveldb_iter_seek_to_first (ldb m)))"

text \<open>
  \<^verbatim>\<open>mstor_leveldb_create_new\<close> fills every field of the root payload; \<open>t\<close> is the value
  of \<^verbatim>\<open>time(NULL)\<close>.
\<close>

definition mstor_leveldb_create_new :: "platform \<Rightarrow> 64 word \<Rightarrow> mstor \<Rightarrow> mstor" where
  "mstor_leveldb_create_new P t m =
     (let m1 = mstor_write_version m MSTOR_CUR_VERSION;
          nkey = mnode_key MSTOR_ROOT_NID;
          nbody = pack_to_be64 t @ pack_to_be64 t @ pack_to_be64 0
                  @ pack_to_be32 (RF_SUPERUSER_UID P) @ pack_to_be32 (RF_SUPERUSER_GID P)
                  @ pack_to_be16 (MSTOR_ROOT_NID_INIT_MODE P)
      in m1\<lparr>ldb := leveldb_put (ldb m1) nkey nbody, next_nid := MSTOR_ROOT_NID + 1\<rparr>)"

definition mstor_load_next_nid :: "ldb \<Rightarrow> error + 64 word" where
  "mstor_load_next_nid db =
     (case leveldb_iter_prev (leveldb_iter_seek db (mnode_key MSTOR_NID_MAX)) of
        None \<Rightarrow> Inl UNDEFINED
      | Some it \<Rightarrow>
          (case snd it of
             [] \<Rightarrow> Inl EINVAL
           | (k, v) # _ \<Rightarrow>
               if length k \<noteq> MNODE_KEY_LEN \<or> hd k \<noteq> byte_of_char CHR ''n'' then Inl EINVAL
               else Inr (unpack_from_be64 (tl k) + 1)))"

definition mstor_load_next_cid :: "ldb \<Rightarrow> error + 64 word" where
  "mstor_load_next_cid db =
     (case leveldb_iter_prev (leveldb_iter_seek db (mchunk_key MSTOR_CID_MAX)) of
        None \<Rightarrow> Inl UNDEFINED
      | Some it \<Rightarrow>
          (case snd it of
             [] \<Rightarrow> Inr 1
           | (k, v) # _ \<Rightarrow>
               if length k \<noteq> MCHUNK_KEY_LEN \<or> hd k \<noteq> byte_of_char CHR ''h'' then Inr 1
               else Inr (unpack_from_be64 (tl k) + 1)))"

definition mstor_leveldb_load :: "mstor \<Rightarrow> error + mstor" where
  "mstor_leveldb_load m =
     (let vers = mstor_read_version m
      in if vers = MSTOR_VERSION_INVAL then Inl EINVAL
         else if vers \<noteq> MSTOR_CUR_VERSION then Inl EINVAL
         else case mstor_load_next_nid (ldb m) of
                Inl e \<Rightarrow> Inl e
              | Inr n \<Rightarrow>
                  (case mstor_load_next_cid (ldb m) of
                     Inl e \<Rightarrow> Inl e
                   | Inr c \<Rightarrow> Inr (m\<lparr>next_nid := n, next_cid := c\<rparr>)))"

definition get_valid_repl :: "platform \<Rightarrow> int \<Rightarrow> int \<Rightarrow> int" where
  "get_valid_repl P conf_repl def_repl =
     (if conf_repl = JORM_INVAL_INT P then def_repl
      else if conf_repl < 1 then def_repl
      else if conf_repl > RF_MAX_OID P then RF_MAX_OID P
      else conf_repl)"

text \<open>
  \<^verbatim>\<open>mstor_leveldb_init\<close> opens the database found at \<^verbatim>\<open>conf->mstor_path\<close>: \<open>disk\<close> is its
  content, \<open>None\<close> when there is none, in which case the engine creates an empty one if
  \<^verbatim>\<open>mstor_create\<close> is set and fails otherwise.
\<close>

definition mstor_leveldb_init :: "platform \<Rightarrow> mstor \<Rightarrow> mstorc \<Rightarrow> ldb option \<Rightarrow> error + mstor" where
  "mstor_leveldb_init P m conf disk =
     (case (case disk of
              Some db \<Rightarrow> Inr db
            | None \<Rightarrow> if mstor_create conf \<noteq> 0 then Inr [] else Inl EIO) of
        Inl e \<Rightarrow> Inl e
      | Inr db \<Rightarrow>
          (let m1 = m\<lparr>ldb := db\<rparr>;
               m2 = (if mstorc_min_sequester_time conf = JORM_INVAL_INT P
                     then m1\<lparr>min_sequester_time := MSTOR_DEFAULT_SEQUESTER_TIME\<rparr>
                     else m1\<lparr>min_sequester_time := mstorc_min_sequester_time conf\<rparr>);
               m3 = m2\<lparr>min_repl := get_valid_repl P (min_repl m2) MSTOR_DEFAULT_MIN_REPL\<rparr>;
               m4 = m3\<lparr>man_repl := get_valid_repl P (man_repl m3) MSTOR_DEFAULT_MAN_REPL\<rparr>
           in Inr m4))"

text \<open>\<^verbatim>\<open>mstor_init\<close> starts from a \<^verbatim>\<open>calloc\<close>ed store object: every field is zero.\<close>

definition calloc_mstor :: "(string \<times> user) list \<Rightarrow> mstor" where
  "calloc_mstor ud =
     \<lparr>ldb = [], next_nid = 0, min_sequester_time = 0, min_repl = 0, man_repl = 0,
      next_cid = 0, udata = ud\<rparr>"

definition mstor_init ::
  "platform \<Rightarrow> mstorc \<Rightarrow> (string \<times> user) list \<Rightarrow> ldb option \<Rightarrow> 64 word \<Rightarrow> error + mstor" where
  "mstor_init P conf ud disk t =
     (case mstor_leveldb_init P (calloc_mstor ud) conf disk of
        Inl e \<Rightarrow> Inl e
      | Inr m \<Rightarrow>
          if mstor_leveldb_is_empty m then Inr (mstor_leveldb_create_new P t m)
          else mstor_leveldb_load m)"

section \<open>Permission check\<close>

definition mstor_mode_check :: "platform \<Rightarrow> mnode \<Rightarrow> mreq \<Rightarrow> 32 word \<Rightarrow> error + unit" where
  "mstor_mode_check P node mreq want =
     (case val node of
        None \<Rightarrow> Inl UNDEFINED
      | Some v \<Rightarrow>
          (let mode = get_mode_and_type v
           in if want AND ucast (MNODE_IS_DIR P) \<noteq> 0 \<and> mode AND MNODE_IS_DIR P = 0
                then Inl ENOTDIR
              else if want AND ucast (MNODE_IS_DIR P) = 0 \<and> mode AND MNODE_IS_DIR P \<noteq> 0
                then Inl EISDIR
              else if flags mreq AND MREQ_FLAG_CHECK_PERMS = 0 then Inr ()
              else
                (let mode' = mode AND NOT (MNODE_IS_DIR P);
                     want' = want AND NOT (ucast (MNODE_IS_DIR P))
                 in if push_bit 6 want' AND ucast mode' \<noteq> 0 then Inr ()
                    else if get_uid v = uid (user mreq) \<and> want' AND ucast mode' \<noteq> 0
                      then Inr ()
                    else if user_in_gid (user mreq) (get_gid v)
                            \<and> push_bit 3 want' AND ucast mode' \<noteq> 0
                      then Inr ()
                    else Inl EPERM)))"

section \<open>Fetching and creating nodes\<close>

definition mstor_fetch_node :: "mstor \<Rightarrow> 64 word \<Rightarrow> error + mnode" where
  "mstor_fetch_node m n =
     (case leveldb_get (ldb m) (mnode_key n) of
        None \<Rightarrow> Inl ENOENT
      | Some v \<Rightarrow>
          if length v \<noteq> sizeof_mnode_payload then Inl EIO
          else Inr \<lparr>nid = n, val = Some v\<rparr>)"

definition mstor_fetch_child :: "platform \<Rightarrow> mstor \<Rightarrow> mreq \<Rightarrow> bytes \<Rightarrow> mnode \<Rightarrow> error + mnode" where
  "mstor_fetch_child P m mreq pcomp pnode =
     (case mstor_mode_check P pnode mreq (MSTOR_PERM_EXEC OR ucast (MNODE_IS_DIR P)) of
        Inl e \<Rightarrow> Inl e
      | Inr _ \<Rightarrow>
          (case mchild_key P (nid pnode) pcomp of
             None \<Rightarrow> Inl UNDEFINED
           | Some ckey \<Rightarrow>
               (case leveldb_get (ldb m) ckey of
                  None \<Rightarrow> Inl ENOENT
                | Some v \<Rightarrow>
                    if length v \<noteq> 8 then Inl EIO
                    else mstor_fetch_node m (unpack_from_be64 v))))"

text \<open>The payload of a new node is \<^verbatim>\<open>calloc\<close>ed; \<^verbatim>\<open>length\<close> is never written and stays 0.\<close>

definition mstor_make_node ::
  "platform \<Rightarrow> mstor \<Rightarrow> 16 word \<Rightarrow> 64 word \<Rightarrow> 64 word \<Rightarrow> 32 word \<Rightarrow> 32 word \<Rightarrow> bytes \<Rightarrow> mnode
     \<Rightarrow> mstor \<times> (error + mnode)" where
  "mstor_make_node P m mode_and_type mtime atime u g pcomp pnode =
     (case mstor_next_nid m of
        (m1, Inl e) \<Rightarrow> (m1, Inl e)
      | (m1, Inr cnid) \<Rightarrow>
          if cnid = MSTOR_NID_MAX then (m1, Inl EOVERFLOW)
          else
            (case mchild_key P (nid pnode) pcomp of
               None \<Rightarrow> (m1, Inl UNDEFINED)
             | Some ckey \<Rightarrow>
                 (let body0 = replicate sizeof_mnode_payload 0;
                      body1 = set_mode_and_type body0 mode_and_type;
                      body2 = set_mtime body1 mtime;
                      body3 = set_atime body2 atime;
                      body4 = set_uid body3 u;
                      body = set_gid body4 g;
                      bat0 = leveldb_writebatch_put [] ckey (pack_to_be64 cnid);
                      bat = leveldb_writebatch_put bat0 (mnode_key cnid) body
                  in (m1\<lparr>ldb := leveldb_write (ldb m1) bat\<rparr>,
                      Inr \<lparr>nid = cnid, val = Some body\<rparr>))))"

section \<open>Operation handlers\<close>

definition mstor_do_creat ::
  "platform \<Rightarrow> mstor \<Rightarrow> mreq \<Rightarrow> 16 word \<Rightarrow> 64 word \<Rightarrow> bytes \<Rightarrow> mnode \<Rightarrow> mstor \<times> (error + reply)" where
  "mstor_do_creat P m mreq mode ctime pcomp pnode =
     (case mstor_mode_check P pnode mreq (MSTOR_PERM_WRITE OR ucast (MNODE_IS_DIR P)) of
        Inl e \<Rightarrow> (m, Inl e)
      | Inr _ \<Rightarrow>
          (case mstor_make_node P m mode ctime ctime (uid (user mreq)) (gid (user mreq)) pcomp pnode of
             (m', Inl e) \<Rightarrow> (m', Inl e)
           | (m', Inr cnode) \<Rightarrow> (m', Inr (ReplyNid (nid cnode)))))"

definition mstor_do_open ::
  "platform \<Rightarrow> mstor \<Rightarrow> mreq \<Rightarrow> 64 word \<Rightarrow> mnode \<Rightarrow> mstor \<times> (error + reply)" where
  "mstor_do_open P m mreq atime node =
     (case mstor_mode_check P node mreq MSTOR_PERM_READ of
        Inl e \<Rightarrow> (m, Inl e)
      | Inr _ \<Rightarrow>
          (case val node of
             None \<Rightarrow> (m, Inl UNDEFINED)
           | Some v \<Rightarrow>
               (m\<lparr>ldb := leveldb_put (ldb m) (mnode_key (nid node)) (set_atime v atime)\<rparr>,
                Inr (ReplyNid (nid node)))))"

text \<open>
  The loop of \<^verbatim>\<open>mstor_chunkfind_impl\<close>: \<open>pfx\<close> is the first nine bytes of the seek key,
  \<open>base\<close> and \<open>v\<close> the offset and value of the entry under the iterator, \<open>rest\<close> the entries
  after it, \<open>cinfos\<close> the part of the output array filled so far.
\<close>

fun chunkfind_loop ::
  "bytes \<Rightarrow> int \<Rightarrow> 64 word \<Rightarrow> 64 word \<Rightarrow> bytes \<Rightarrow> (bytes \<times> bytes) list \<Rightarrow> chunk_info list
     \<Rightarrow> error + chunk_info list" where
  "chunkfind_loop pfx max_cinfos rend base v rest cinfos =
     (if int (length cinfos) + 1 \<ge> max_cinfos then Inr cinfos
      else if length v \<noteq> 8 then Inl EIO
      else
        (let cinfos' = cinfos @ [\<lparr>cid = unpack_from_be64 v, start = base\<rparr>]
         in case rest of
              [] \<Rightarrow> Inr cinfos'
            | (k, v') # rest' \<Rightarrow>
                if length k \<noteq> MFILE_KEY_LEN \<or> take 9 k \<noteq> pfx then Inr cinfos'
                else
                  (let base' = unpack_from_be64 (drop 9 k)
                   in if base' > rend then Inr cinfos'
                      else chunkfind_loop pfx max_cinfos rend base' v' rest' cinfos')))"

declare chunkfind_loop.simps [simp del]

definition mstor_chunkfind_impl ::
  "mstor \<Rightarrow> 64 word \<Rightarrow> int \<Rightarrow> 64 word \<Rightarrow> 64 word \<Rightarrow> error + chunk_info list" where
  "mstor_chunkfind_impl m n max_cinfos rstart rend =
     (let fkey = mfile_key n (rstart + 1)
      in case leveldb_iter_prev (leveldb_iter_seek (ldb m) fkey) of
           None \<Rightarrow> Inl UNDEFINED
         | Some it \<Rightarrow>
             (case snd it of
                [] \<Rightarrow> Inr []
              | (k, v) # rest \<Rightarrow>
                  if length k \<noteq> MFILE_KEY_LEN \<or> take 9 k \<noteq> take 9 fkey then Inr []
                  else chunkfind_loop (take 9 fkey) max_cinfos rend
                         (unpack_from_be64 (drop 9 k)) v rest []))"

definition mstor_do_chunkfind ::
  "platform \<Rightarrow> mstor \<Rightarrow> mreq \<Rightarrow> 64 word \<Rightarrow> 64 word \<Rightarrow> int \<Rightarrow> mnode \<Rightarrow> mstor \<times> (error + reply)" where
  "mstor_do_chunkfind P m mreq rstart rend max_cinfos cnode =
     (case mstor_mode_check P cnode mreq MSTOR_PERM_READ of
        Inl e \<Rightarrow> (m, Inl e)
      | Inr _ \<Rightarrow>
          (case mstor_chunkfind_impl m (nid cnode) max_cinfos rstart rend of
             Inl e \<Rightarrow> (m, Inl e)
           | Inr cinfos \<Rightarrow> (m, Inr (ReplyCinfos cinfos))))"

definition mstor_assign_oid :: "32 word list" where
  "mstor_assign_oid = [123, 456]"

definition mstor_do_chunkalloc ::
  "platform \<Rightarrow> mstor \<Rightarrow> mreq \<Rightarrow> 64 word \<Rightarrow> 64 word \<Rightarrow> mstor \<times> (error + reply)" where
  "mstor_do_chunkalloc P m mreq n off =
     (case mstor_fetch_node m n of
        Inl e \<Rightarrow> (m, Inl e)
      | Inr node \<Rightarrow>
          (case mstor_mode_check P node mreq MSTOR_PERM_WRITE of
             Inl e \<Rightarrow> (m, Inl e)
           | Inr _ \<Rightarrow>
               (case mstor_chunkfind_impl m n 1 off off of
                  Inl e \<Rightarrow> (m, Inl e)
                | Inr cinfos \<Rightarrow>
                    if length cinfos \<noteq> 0 then (m, Inl EINVAL)
                    else
                      (case mstor_next_cid m of
                         (m1, Inl e) \<Rightarrow> (m1, Inl e)
                       | (m1, Inr c) \<Rightarrow>
                           (let oids = mstor_assign_oid;
                                bat0 = leveldb_writebatch_put [] (mfile_key n off)
                                         (host_bytes64 (host_order P) c);
                                bat = leveldb_writebatch_put bat0 (mchunk_key c)
                                         (concat (map (host_bytes32 (host_order P)) oids))
                            in (m1\<lparr>ldb := leveldb_write (ldb m1) bat\<rparr>,
                                Inr (ReplyChunk c oids)))))))"

definition mstor_do_mkdir ::
  "platform \<Rightarrow> mstor \<Rightarrow> mreq \<Rightarrow> 16 word \<Rightarrow> 64 word \<Rightarrow> bytes \<Rightarrow> mnode \<Rightarrow> mstor \<times> (error + mnode)" where
  "mstor_do_mkdir P m mreq mode ctime pcomp pnode =
     (case mstor_mode_check P pnode mreq (MSTOR_PERM_WRITE OR ucast (MNODE_IS_DIR P)) of
        Inl e \<Rightarrow> (m, Inl e)
      | Inr _ \<Rightarrow>
          mstor_make_node P m (mode OR MNODE_IS_DIR P) ctime ctime
            (uid (user mreq)) (gid (user mreq)) pcomp pnode)"

text \<open>
  The payloads that \<^verbatim>\<open>mstor_do_chmod\<close> and \<^verbatim>\<open>mstor_do_utimes\<close> compute in place before they
  put them back: the new mode keeps the directory flag of the old one; a time is replaced
  unless the request carries \<^verbatim>\<open>RF_INVAL_TIME\<close> for it.
\<close>

definition chmod_payload :: "platform \<Rightarrow> bytes \<Rightarrow> 16 word \<Rightarrow> bytes" where
  "chmod_payload P v mode =
     (let old_mode_and_type = get_mode_and_type v;
          mode_and_type =
            (if old_mode_and_type AND MNODE_IS_DIR P \<noteq> 0 then mode OR MNODE_IS_DIR P
             else mode AND NOT (MNODE_IS_DIR P))
      in set_mode_and_type v mode_and_type)"

definition utimes_payload :: "platform \<Rightarrow> bytes \<Rightarrow> 64 word \<Rightarrow> 64 word \<Rightarrow> bytes" where
  "utimes_payload P v atime mtime =
     (let v1 = (if atime \<noteq> RF_INVAL_TIME P then set_atime v atime else v);
          v2 = (if mtime \<noteq> RF_INVAL_TIME P then set_mtime v1 mtime else v1)
      in v2)"

definition mstor_do_chmod ::
  "platform \<Rightarrow> mstor \<Rightarrow> mreq \<Rightarrow> 16 word \<Rightarrow> mnode \<Rightarrow> mstor \<times> (error + reply)" where
  "mstor_do_chmod P m mreq mode node =
     (case val node of
        None \<Rightarrow> (m, Inl UNDEFINED)
      | Some v \<Rightarrow>
          (m\<lparr>ldb := leveldb_put (ldb m) (mnode_key (nid node)) (chmod_payload P v mode)\<rparr>,
           Inr NoReply))"

definition mstor_do_utimes ::
  "platform \<Rightarrow> mstor \<Rightarrow> mreq \<Rightarrow> 64 word \<Rightarrow> 64 word \<Rightarrow> mnode \<Rightarrow> mstor \<times> (error + reply)" where
  "mstor_do_utimes P m mreq atime mtime node =
     (case val node of
        None \<Rightarrow> (m, Inl UNDEFINED)
      | Some v \<Rightarrow>
          (m\<lparr>ldb := leveldb_put (ldb m) (mnode_key (nid node)) (utimes_payload P v atime mtime)\<rparr>,
           Inr NoReply))"

definition leveldb_delete_node ::
  "platform \<Rightarrow> bytes \<Rightarrow> mnode \<Rightarrow> mnode \<Rightarrow> leveldb_writebatch \<Rightarrow> leveldb_writebatch option" where
  "leveldb_delete_node P pcomp pnode cnode bat =
     (case mchild_key P (nid pnode) pcomp of
        None \<Rightarrow> None
      | Some ckey \<Rightarrow>
          Some (leveldb_writebatch_delete (leveldb_writebatch_delete bat ckey)
                  (mnode_key (nid cnode))))"

text \<open>
  The loop of \<^verbatim>\<open>mstor_do_rmdir\<close> over the entries from the iterator's position on. The name
  copied out of a key is used as a C string afterwards: it ends at its first zero byte.
\<close>

fun rmdir_loop ::
  "platform \<Rightarrow> mstor \<Rightarrow> mreq \<Rightarrow> bool \<Rightarrow> mnode \<Rightarrow> (bytes \<times> bytes) list \<Rightarrow> leveldb_writebatch
     \<Rightarrow> error + leveldb_writebatch" where
  "rmdir_loop P m mreq rmr cnode [] bat = Inr bat"
| "rmdir_loop P m mreq rmr cnode ((k, v) # rest) bat =
     (if length k < 1 then Inl EIO
      else if hd k \<noteq> byte_of_char CHR ''c'' then Inr bat
      else if length k \<le> MCHILD_KEY_LEN_PREFIX then Inl EIO
      else if unpack_from_be64 (tl k) \<noteq> nid cnode then Inr bat
      else if length v \<noteq> 8 then Inl EIO
      else if length k - MCHILD_KEY_LEN_PREFIX \<ge> RF_PCOMP_MAX P then Inl EIO
      else if \<not> rmr then Inl ENOTEMPTY
      else
        (case mstor_fetch_node m (unpack_from_be64 v) of
           Inl e \<Rightarrow> Inl e
         | Inr node \<Rightarrow>
             (case mstor_mode_check P node mreq MSTOR_PERM_WRITE of
                Inl e \<Rightarrow> Inl e
              | Inr _ \<Rightarrow>
                  (case leveldb_delete_node P
                          (takeWhile (\<lambda>b. b \<noteq> 0) (drop MCHILD_KEY_LEN_PREFIX k)) cnode node bat of
                     None \<Rightarrow> Inl UNDEFINED
                   | Some bat' \<Rightarrow> rmdir_loop P m mreq rmr cnode rest bat'))))"

definition mstor_do_rmdir ::
  "platform \<Rightarrow> mstor \<Rightarrow> mreq \<Rightarrow> bool \<Rightarrow> bytes \<Rightarrow> mnode \<Rightarrow> mnode \<Rightarrow> mstor \<times> (error + reply)" where
  "mstor_do_rmdir P m mreq rmr pcomp pnode cnode =
     (if val pnode = None then (m, Inl EPERM)
      else
        (case mstor_mode_check P pnode mreq (MSTOR_PERM_WRITE OR ucast (MNODE_IS_DIR P)) of
           Inl e \<Rightarrow> (m, Inl e)
         | Inr _ \<Rightarrow>
             (case rmdir_loop P m mreq rmr cnode
                     (snd (leveldb_iter_seek (ldb m) (mchild_prefix (nid cnode)))) [] of
                Inl e \<Rightarrow> (m, Inl e)
              | Inr bat \<Rightarrow>
                  (case leveldb_delete_node P pcomp pnode cnode bat of
                     None \<Rightarrow> (m, Inl UNDEFINED)
                   | Some bat' \<Rightarrow> (m\<lparr>ldb := leveldb_write (ldb m) bat'\<rparr>, Inr NoReply)))))"

section \<open>Path walker\<close>

text \<open>
  After canonicalisation the walker overwrites every slash of the path by a terminator and
  counts the slashes: the buffer then holds the pieces between the slashes as adjacent
  C strings.
\<close>

fun split_slash :: "string \<Rightarrow> string list" where
  "split_slash [] = [[]]"
| "split_slash (c # cs) =
     (if c = CHR ''/'' then [] # split_slash cs
      else (case split_slash cs of
              [] \<Rightarrow> [[c]]
            | p # ps \<Rightarrow> (c # p) # ps))"

text \<open>
  The \<^verbatim>\<open>for\<close> loop of \<^verbatim>\<open>mstor_do_path_operation\<close> over the components still to visit. It
  either returns from the function (\<open>Returned\<close>) or falls through to the final
  \<^verbatim>\<open>switch\<close> (\<open>Reached\<close>) with the store, the request, the last component and the parent
  and child nodes.
\<close>

datatype walk_result =
    Returned "mstor \<times> (error + reply)"
  | Reached mstor mreq bytes mnode mnode

fun path_loop ::
  "platform \<Rightarrow> mstor \<Rightarrow> mreq \<Rightarrow> bytes \<Rightarrow> bytes list \<Rightarrow> mnode \<Rightarrow> mnode \<Rightarrow> walk_result" where
  "path_loop P m mreq pcomp [] pnode cnode = Reached m mreq pcomp pnode cnode"
| "path_loop P m mreq pcomp (pc # rest) pnode cnode =
     (case mstor_fetch_child P m mreq pc cnode of
        Inr cnode' \<Rightarrow> path_loop P m mreq pc rest cnode cnode'
      | Inl e \<Rightarrow>
          if e = ENOENT then
            (case op mreq of
               MSTOR_OP_CREAT mode ctime \<Rightarrow>
                 if rest \<noteq> [] then Returned (m, Inl ENOENT)
                 else Returned (mstor_do_creat P m mreq mode ctime pc cnode)
             | MSTOR_OP_MKDIRS mode ctime \<Rightarrow>
                 (case mstor_do_mkdir P m mreq mode ctime pc cnode of
                    (m', Inl e') \<Rightarrow> Returned (m', Inl e')
                  | (m', Inr cnode') \<Rightarrow>
                      path_loop P m' (mreq\<lparr>flags := flags mreq AND NOT MREQ_FLAG_CHECK_PERMS\<rparr>)
                        pc rest cnode cnode')
             | _ \<Rightarrow> Returned (m, Inl ENOENT))
          else Returned (m, Inl e))"

text \<open>
  The final \<^verbatim>\<open>switch\<close>. The rmdir case passes the child node where \<^verbatim>\<open>mstor_do_rmdir\<close>
  expects the parent and the parent where it expects the child, as the source does. A
  chunkalloc request never comes here through \<^verbatim>\<open>mstor_do_operation\<close>; the \<^verbatim>\<open>switch\<close>
  has no case for it and aborts.
\<close>

definition path_switch ::
  "platform \<Rightarrow> mstor \<Rightarrow> mreq \<Rightarrow> bytes \<Rightarrow> mnode \<Rightarrow> mnode \<Rightarrow> mstor \<times> (error + reply)" where
  "path_switch P m mreq pcomp pnode cnode =
     (case op mreq of
        MSTOR_OP_CREAT mode ctime \<Rightarrow> (m, Inl EEXIST)
      | MSTOR_OP_OPEN atime \<Rightarrow> mstor_do_open P m mreq atime cnode
      | MSTOR_OP_CHUNKFIND rstart rend max_cinfos \<Rightarrow>
          mstor_do_chunkfind P m mreq rstart rend max_cinfos cnode
      | MSTOR_OP_CHUNKALLOC n off \<Rightarrow> (m, Inl ABORT)
      | MSTOR_OP_MKDIRS mode ctime \<Rightarrow> (m, Inr NoReply)
      | MSTOR_OP_CHMOD mode \<Rightarrow> mstor_do_chmod P m mreq mode cnode
      | MSTOR_OP_UTIMES atime mtime \<Rightarrow> mstor_do_utimes P m mreq atime mtime cnode
      | MSTOR_OP_RMDIR rmr \<Rightarrow> mstor_do_rmdir P m mreq rmr pcomp cnode pnode
      | MSTOR_OP_SEQUESTER_TREE \<Rightarrow> (m, Inl ENOTSUP)
      | MSTOR_OP_FIND_SEQUESTERED \<Rightarrow> (m, Inl ENOTSUP)
      | MSTOR_OP_DESTROY_SEQUESTERED \<Rightarrow> (m, Inl ENOTSUP)
      | MSTOR_OP_RENAME \<Rightarrow> (m, Inl ENOTSUP))"

text \<open>
  The request as the walker sees it: permission checks are on, unless the user is the
  superuser.
\<close>

definition path_mreq :: "platform \<Rightarrow> mreq \<Rightarrow> mreq" where
  "path_mreq P mreq =
     (let mreq1 = mreq\<lparr>flags := MREQ_FLAG_CHECK_PERMS\<rparr>
      in if uid (user mreq1) = RF_SUPERUSER_UID P
         then mreq1\<lparr>flags := flags mreq1 AND NOT MREQ_FLAG_CHECK_PERMS\<rparr>
         else mreq1)"

text \<open>
  The number of components is the number of slashes, except that a buffer starting with
  two terminators (the path \<^verbatim>\<open>/\<close>) has none. The walk starts with \<^verbatim>\<open>pcomp\<close> at the first
  piece and moves to the next piece before each lookup.
\<close>

definition path_components :: "string \<Rightarrow> bytes \<times> bytes list" where
  "path_components p =
     (case split_slash p of
        [] \<Rightarrow> ([], [])
      | p0 # ps \<Rightarrow>
          (let npc = (case p0 # ps of
                        [] # [] # _ \<Rightarrow> 0
                      | _ \<Rightarrow> length ps)
           in (cstr p0, map cstr (take npc ps))))"

definition mstor_do_path_operation :: "platform \<Rightarrow> mstor \<Rightarrow> mreq \<Rightarrow> mstor \<times> (error + reply)" where
  "mstor_do_path_operation P m mreq0 =
     (let mreq = path_mreq P mreq0
      in if length (full_path mreq) \<ge> RF_PATH_MAX P then (m, Inl ENAMETOOLONG)
         else
           (case canonicalize_path P (full_path mreq) of
              Inl e \<Rightarrow> (m, Inl e)
            | Inr p \<Rightarrow>
                (case mstor_fetch_node m MSTOR_ROOT_NID of
                   Inl e \<Rightarrow> (m, Inl ENOSYS)
                 | Inr root \<Rightarrow>
                     (case path_loop P m mreq (fst (path_components p)) (snd (path_components p))
                             zero_mnode root of
                        Returned r \<Rightarrow> r
                      | Reached m' mreq' pcomp pnode cnode \<Rightarrow>
                          path_switch P m' mreq' pcomp pnode cnode))))"

definition mstor_do_operation :: "platform \<Rightarrow> mstor \<Rightarrow> mreq \<Rightarrow> mstor \<times> (error + reply)" where
  "mstor_do_operation P m mreq =
     (case udata_lookup_user (udata m) (user_name mreq) of
        None \<Rightarrow> (m, Inl EUSERS)
      | Some u \<Rightarrow>
          (let mreq' = mreq\<lparr>user := u\<rparr>
           in case op mreq' of
                MSTOR_OP_CHUNKALLOC n off \<Rightarrow> mstor_do_chunkalloc P m mreq' n off
              | _ \<Rightarrow> mstor_do_path_operation P m mreq'))"

section \<open>Dumper\<close>

text \<open>What \<^verbatim>\<open>mstor_dump_file_entry\<close> decodes and prints: node id, offset and chunk id.\<close>

definition mstor_dump_file_entry :: "bytes \<Rightarrow> bytes \<Rightarrow> error + (64 word \<times> 64 word \<times> 64 word)" where
  "mstor_dump_file_entry k v =
     (if length k \<noteq> MFILE_KEY_LEN then Inl EINVAL
      else if length v \<noteq> 8 then Inl EINVAL
      else Inr (unpack_from_be64 (tl k), unpack_from_be64 (drop 9 k), unpack_from_be64 v))"

section \<open>Notions used to state the properties\<close>

text \<open>
  The permission check as the specification words it, with the positions of a POSIX mode:
  the "other" bits are the low three bits of the mode, the "group" bits the next three and
  the "owner" bits the three above them (octal 0007, 0070 and 0700). The type check and the
  bypass are those of \<^verbatim>\<open>mstor_mode_check\<close>.
\<close>

definition spec_mode_check :: "platform \<Rightarrow> mnode \<Rightarrow> mreq \<Rightarrow> 32 word \<Rightarrow> error + unit" where
  "spec_mode_check P node mreq want =
     (case val node of
        None \<Rightarrow> Inl UNDEFINED
      | Some v \<Rightarrow>
          (let mode = get_mode_and_type v
           in if want AND ucast (MNODE_IS_DIR P) \<noteq> 0 \<and> mode AND MNODE_IS_DIR P = 0
                then Inl ENOTDIR
              else if want AND ucast (MNODE_IS_DIR P) = 0 \<and> mode AND MNODE_IS_DIR P \<noteq> 0
                then Inl EISDIR
              else if flags mreq AND MREQ_FLAG_CHECK_PERMS = 0 then Inr ()
              else
                (let mode' = mode AND NOT (MNODE_IS_DIR P);
                     want' = want AND NOT (ucast (MNODE_IS_DIR P))
                 in if want' AND ucast mode' \<noteq> 0 then Inr ()
                    else if get_uid v = uid (user mreq) \<and> push_bit 6 want' AND ucast mode' \<noteq> 0
                      then Inr ()
                    else if user_in_gid (user mreq) (get_gid v)
                            \<and> push_bit 3 want' AND ucast mode' \<noteq> 0
                      then Inr ()
                    else Inl EPERM)))"

text \<open>
  A request traverses a list of components when the walker's lookup succeeds at each of
  them: the component is there, and the node above it passes the walker's check (it is a
  directory, and the requester is granted execute on it or checks are off).
\<close>

fun traverse ::
  "platform \<Rightarrow> mstor \<Rightarrow> mreq \<Rightarrow> bytes \<Rightarrow> bytes list \<Rightarrow> mnode \<Rightarrow> mnode
     \<Rightarrow> error + (bytes \<times> mnode \<times> mnode)" where
  "traverse P m mreq pcomp [] pnode cnode = Inr (pcomp, pnode, cnode)"
| "traverse P m mreq pcomp (pc # rest) pnode cnode =
     (case mstor_fetch_child P m mreq pc cnode of
        Inl e \<Rightarrow> Inl e
      | Inr cnode' \<Rightarrow> traverse P m mreq pc rest cnode cnode')"

text \<open>
  \<open>resolve\<close> is the walk of \<^verbatim>\<open>mstor_do_path_operation\<close> for a request whose components all
  exist: the length check, the canonicaliser, the root and the traversal of the
  components.
\<close>

definition resolve :: "platform \<Rightarrow> mstor \<Rightarrow> mreq \<Rightarrow> error + (bytes \<times> mnode \<times> mnode)" where
  "resolve P m mreq0 =
     (let mreq = path_mreq P mreq0
      in if length (full_path mreq) \<ge> RF_PATH_MAX P then Inl ENAMETOOLONG
         else
           (case canonicalize_path P (full_path mreq) of
              Inl e \<Rightarrow> Inl e
            | Inr p \<Rightarrow>
                (case mstor_fetch_node m MSTOR_ROOT_NID of
                   Inl e \<Rightarrow> Inl ENOSYS
                 | Inr root \<Rightarrow>
                     traverse P m mreq (fst (path_components p)) (snd (path_components p))
                       zero_mnode root)))"

text \<open>
  The components of a path exist in a database, whoever asks: from node \<open>n\<close> on, each
  component has its directory entry, under the key that the store builds for it, and the
  entry's node has its record. A path exists when it canonicalises and its components
  exist from the root on.
\<close>

fun lookup_nid :: "platform \<Rightarrow> ldb \<Rightarrow> 64 word \<Rightarrow> bytes list \<Rightarrow> 64 word option" where
  "lookup_nid P db n [] = (if leveldb_get db (mnode_key n) = None then None else Some n)"
| "lookup_nid P db n (pc # rest) =
     (if leveldb_get db (mnode_key n) = None then None
      else (case mchild_key P n pc of
              None \<Rightarrow> None
            | Some ckey \<Rightarrow>
                (case leveldb_get db ckey of
                   None \<Rightarrow> None
                 | Some v \<Rightarrow> lookup_nid P db (unpack_from_be64 v) rest)))"

definition path_exists :: "platform \<Rightarrow> ldb \<Rightarrow> string \<Rightarrow> bool" where
  "path_exists P db path =
     (case canonicalize_path P path of
        Inl e \<Rightarrow> False
      | Inr p \<Rightarrow> lookup_nid P db MSTOR_ROOT_NID (snd (path_components p)) \<noteq> None)"

text \<open>
  The keys of one family (one tag byte) and the ids they carry. A family is well formed
  below a ceiling when each of its keys is the tag and eight more bytes, and the id in
  these bytes is below the ceiling.
\<close>

definition family_keys :: "byte \<Rightarrow> ldb \<Rightarrow> bytes list" where
  "family_keys t db = filter (\<lambda>k. k \<noteq> [] \<and> hd k = t) (map fst db)"

definition family_ids :: "byte \<Rightarrow> ldb \<Rightarrow> 64 word list" where
  "family_ids t db = map (\<lambda>k. unpack_from_be64 (tl k)) (family_keys t db)"

definition family_ok :: "byte \<Rightarrow> 64 word \<Rightarrow> ldb \<Rightarrow> bool" where
  "family_ok t lim db = list_all (\<lambda>k. length k = 9 \<and> unpack_from_be64 (tl k) < lim) (family_keys t db)"

definition node_ids :: "ldb \<Rightarrow> 64 word list" where
  "node_ids db = family_ids (byte_of_char CHR ''n'') db"

definition chunk_ids :: "ldb \<Rightarrow> 64 word list" where
  "chunk_ids db = family_ids (byte_of_char CHR ''h'') db"

text \<open>The number that a byte string denotes when read most significant byte first.\<close>

fun val_be :: "bytes \<Rightarrow> nat" where
  "val_be [] = 0"
| "val_be (x # xs) = unat x * 256 ^ length xs + val_be xs"

section \<open>A concrete platform, its users and some stores\<close>

text \<open>
  A sample platform: a little-endian host with the directory flag in the top bit of the
  mode, uid 0 as the superuser, 255 bytes for a path component, and paths that are
  canonical as they come. The theorems that are stated for every platform do not depend
  on these values.
\<close>

definition x86 :: platform where
  "x86 = \<lparr>MNODE_IS_DIR = 0x8000, RF_SUPERUSER_UID = 0, RF_SUPERUSER_GID = 0, RF_PCOMP_MAX = 256,
          RF_PATH_MAX = 4096, RF_MAX_OID = 0x7fffffff, JORM_INVAL_INT = - 2147483648,
          RF_INVAL_TIME = 0xffffffffffffffff, host_order = LITTLE_ENDIAN,
          canonicalize_path = Inr\<rparr>"

definition superuser :: user where "superuser = \<lparr>uid = 0, gid = 0, segid = []\<rparr>"
definition alice :: user where "alice = \<lparr>uid = 1000, gid = 1000, segid = []\<rparr>"
definition bob :: user where "bob = \<lparr>uid = 1001, gid = 1001, segid = []\<rparr>"

definition users :: "(string \<times> user) list" where
  "users = [(''root'', superuser), (''alice'', alice), (''bob'', bob)]"

definition conf5 :: mstorc where
  "conf5 = \<lparr>mstor_path = ''/tmp/mstor'', mstor_create = 1, mstor_cache_size = 1024,
            mstorc_min_sequester_time = 300, mstorc_min_repl = 1, mstorc_man_repl = 5\<rparr>"

definition request :: "string \<Rightarrow> string \<Rightarrow> mstor_op_ty \<Rightarrow> mreq" where
  "request who path oper =
     \<lparr>op = oper, flags = MREQ_FLAG_CHECK_PERMS, user_name = who, user = superuser,
      full_path = path\<rparr>"

definition payload :: "16 word \<Rightarrow> 64 word \<Rightarrow> 64 word \<Rightarrow> 32 word \<Rightarrow> 32 word \<Rightarrow> bytes" where
  "payload mode mt at u g =
     pack_to_be64 mt @ pack_to_be64 at @ pack_to_be64 0 @ pack_to_be32 u @ pack_to_be32 g
     @ pack_to_be16 mode"

definition version_record :: "bytes \<times> bytes" where
  "version_record = (cstr ''v'', cstr ''Fish'' @ pack_to_be32 1)"

definition root_record :: "bytes \<times> bytes" where
  "root_record = (mnode_key 0, payload 0x81ED 100 100 0 0)"

text \<open>The store right after \<^verbatim>\<open>mstor_init\<close> on an empty directory at time 100.\<close>

definition fresh :: mstor where
  "fresh = \<lparr>ldb = [root_record, version_record], next_nid = 1, min_sequester_time = 300,
            min_repl = 2, man_repl = 3, next_cid = 0, udata = users\<rparr>"

text \<open>The fresh store after the superuser's \<^verbatim>\<open>chmod("/", 0777)\<close>.\<close>

definition store_open_root :: mstor where
  "store_open_root = fresh\<lparr>ldb := [(mnode_key 0, payload 0x81FF 100 100 0 0), version_record]\<rparr>"

text \<open>The fresh store after the superuser's \<^verbatim>\<open>mkdirs("/a", 0755)\<close>.\<close>

definition store_a :: mstor where
  "store_a = fresh\<lparr>ldb := [(mchild_prefix 0 @ cstr ''a'', pack_to_be64 1), root_record,
                            (mnode_key 1, payload 0x81ED 200 200 0 0), version_record],
                    next_nid := 2\<rparr>"

text \<open>The fresh store after alice's \<^verbatim>\<open>creat("/f", 0644)\<close>, and after chunk allocations.\<close>

definition file_f :: "(bytes \<times> bytes) list" where
  "file_f = [root_record, (mnode_key 1, payload 0x1A4 200 200 1000 1000), version_record]"

definition store_f :: mstor where
  "store_f = fresh\<lparr>ldb := (mchild_prefix 0 @ cstr ''f'', pack_to_be64 1) # file_f, next_nid := 2\<rparr>"

definition store_f_0 :: mstor where
  "store_f_0 = store_f\<lparr>ldb := [(mchild_prefix 0 @ cstr ''f'', pack_to_be64 1),
                                 (mfile_key 1 0, [0, 0, 0, 0, 0, 0, 0, 0]),
                                 (mchunk_key 0, [123, 0, 0, 0, 200, 1, 0, 0])] @ file_f,
                        next_cid := 1\<rparr>"

definition store_f_0_again :: mstor where
  "store_f_0_again = store_f\<lparr>ldb := [(mchild_prefix 0 @ cstr ''f'', pack_to_be64 1),
                                       (mfile_key 1 0, [1, 0, 0, 0, 0, 0, 0, 0]),
                                       (mchunk_key 0, [123, 0, 0, 0, 200, 1, 0, 0]),
                                       (mchunk_key 1, [123, 0, 0, 0, 200, 1, 0, 0])] @ file_f,
                              next_cid := 2\<rparr>"

definition store_f_0_4096 :: mstor where
  "store_f_0_4096 = store_f\<lparr>ldb := [(mchild_prefix 0 @ cstr ''f'', pack_to_be64 1),
                                      (mfile_key 1 0, [0, 0, 0, 0, 0, 0, 0, 0]),
                                      (mfile_key 1 4096, [1, 0, 0, 0, 0, 0, 0, 0]),
                                      (mchunk_key 0, [123, 0, 0, 0, 200, 1, 0, 0]),
                                      (mchunk_key 1, [123, 0, 0, 0, 200, 1, 0, 0])] @ file_f,
                             next_cid := 2\<rparr>"

text \<open>The fresh store after the superuser's \<^verbatim>\<open>mkdirs("/a/b", 0000)\<close>.\<close>

definition store_a_b :: mstor where
  "store_a_b = fresh\<lparr>ldb := [(mchild_prefix 0 @ cstr ''a'', pack_to_be64 1),
                              (mchild_prefix 1 @ cstr ''b'', pack_to_be64 2), root_record,
                              (mnode_key 1, payload 0x8000 200 200 0 0),
                              (mnode_key 2, payload 0x8000 200 200 0 0), version_record],
                      next_nid := 3\<rparr>"

text \<open>The fresh store after bob's \<^verbatim>\<open>creat("/g", 0000)\<close>.\<close>

definition store_g :: mstor where
  "store_g = fresh\<lparr>ldb := [(mchild_prefix 0 @ cstr ''g'', pack_to_be64 1), root_record,
                            (mnode_key 1, payload 0 200 200 1001 1001), version_record],
                    next_nid := 2\<rparr>"

text \<open>
  The fresh store after the superuser's \<^verbatim>\<open>mkdirs("/d", 0003)\<close> and \<^verbatim>\<open>creat("/d/g", 0644)\<close>.
\<close>

definition store_d :: mstor where
  "store_d = fresh\<lparr>ldb := [(mchild_prefix 0 @ cstr ''d'', pack_to_be64 1), root_record,
                            (mnode_key 1, payload 0x8003 200 200 0 0), version_record],
                    next_nid := 2\<rparr>"

definition store_d_g :: mstor where
  "store_d_g = fresh\<lparr>ldb := [(mchild_prefix 0 @ cstr ''d'', pack_to_be64 1),
                              (mchild_prefix 1 @ cstr ''g'', pack_to_be64 2), root_record,
                              (mnode_key 1, payload 0x8003 200 200 0 0),
                              (mnode_key 2, payload 0x1A4 300 300 0 0), version_record],
                      next_nid := 3\<rparr>"

text \<open>The nodes of these stores, as \<^verbatim>\<open>mstor_fetch_node\<close> returns them.\<close>

definition node_root :: mnode where
  "node_root = \<lparr>nid = 0, val = Some (snd root_record)\<rparr>"

definition node_f :: mnode where
  "node_f = \<lparr>nid = 1, val = Some (payload 0x1A4 200 200 1000 1000)\<rparr>"

definition node_d :: mnode where
  "node_d = \<lparr>nid = 1, val = Some (payload 0x8003 200 200 0 0)\<rparr>"

definition node_g :: mnode where
  "node_g = \<lparr>nid = 1, val = Some (payload 0 200 200 1001 1001)\<rparr>"

section \<open>The example stores are reached through the interface\<close>

lemma fresh_is_init: "mstor_init x86 conf5 users None 100 = Inr fresh"
  by code_simp

lemma store_open_root_reached:
  "mstor_do_operation x86 fresh (request ''root'' ''/'' (MSTOR_OP_CHMOD 0x1FF))
     = (store_open_root, Inr NoReply)"
  by code_simp

lemma store_a_reached:
  "mstor_do_operation x86 fresh (request ''root'' ''/a'' (MSTOR_OP_MKDIRS 0x1ED 200))
     = (store_a, Inr NoReply)"
  by code_simp

lemma store_f_reached:
  "mstor_do_operation x86 fresh (request ''alice'' ''/f'' (MSTOR_OP_CREAT 0x1A4 200))
     = (store_f, Inr (ReplyNid 1))"
  by code_simp

lemma store_f_0_reached:
  "mstor_do_operation x86 store_f (request ''alice'' [] (MSTOR_OP_CHUNKALLOC 1 0))
     = (store_f_0, Inr (ReplyChunk 0 [123, 456]))"
  by code_simp

lemma store_a_b_reached:
  "mstor_do_operation x86 fresh (request ''root'' ''/a/b'' (MSTOR_OP_MKDIRS 0 200))
     = (store_a_b, Inr NoReply)"
  by code_simp

lemma store_g_reached:
  "mstor_do_operation x86 fresh (request ''bob'' ''/g'' (MSTOR_OP_CREAT 0 200))
     = (store_g, Inr (ReplyNid 1))"
  by code_simp

lemma store_d_reached:
  "mstor_do_operation x86 fresh (request ''root'' ''/d'' (MSTOR_OP_MKDIRS 3 200))
     = (store_d, Inr NoReply)"
  by code_simp

lemma store_d_g_reached:
  "mstor_do_operation x86 store_d (request ''root'' ''/d/g'' (MSTOR_OP_CREAT 0x1A4 300))
     = (store_d_g, Inr (ReplyNid 2))"
  by code_simp

section \<open>Claims on the permission check\<close>

text \<open>
  Claim C1: with \<^verbatim>\<open>CHECK_PERMS\<close> set, the check grants when the wanted bits are in the
  mode at the "other" position, failing that at the "owner" position when the caller owns
  the node, failing that at the "group" position when the caller is in the node's group,
  and returns \<^verbatim>\<open>-EPERM\<close> otherwise.

  The code tests the positions the other way round: it shifts \<^verbatim>\<open>want\<close> by six bits for
  everyone (the owner bits, octal 0700) and leaves it unshifted for the owner (the other
  bits, octal 0007). A file of mode 0700 owned by bob is readable by alice, who is neither
  the owner nor in the group; a file of mode 0007 owned by bob is not, although its "other"
  bits grant everything. \<open>spec_mode_check\<close> is the check with the positions as the claim
  names them.
\<close>

theorem mode_check_reads_owner_bits_for_everyone:
  "mstor_mode_check x86 \<lparr>nid = 1, val = Some (payload 0x1C0 200 200 1001 1001)\<rparr>
      ((request ''alice'' ''/g'' (MSTOR_OP_OPEN 300))\<lparr>user := alice\<rparr>) MSTOR_PERM_READ = Inr ()
   \<and> spec_mode_check x86 \<lparr>nid = 1, val = Some (payload 0x1C0 200 200 1001 1001)\<rparr>
      ((request ''alice'' ''/g'' (MSTOR_OP_OPEN 300))\<lparr>user := alice\<rparr>) MSTOR_PERM_READ = Inl EPERM
   \<and> mstor_mode_check x86 \<lparr>nid = 1, val = Some (payload 0x007 200 200 1001 1001)\<rparr>
      ((request ''alice'' ''/g'' (MSTOR_OP_OPEN 300))\<lparr>user := alice\<rparr>) MSTOR_PERM_READ = Inl EPERM
   \<and> spec_mode_check x86 \<lparr>nid = 1, val = Some (payload 0x007 200 200 1001 1001)\<rparr>
      ((request ''alice'' ''/g'' (MSTOR_OP_OPEN 300))\<lparr>user := alice\<rparr>) MSTOR_PERM_READ = Inr ()"
  by code_simp

text \<open>
  The last sentence of the claim does hold: with \<^verbatim>\<open>CHECK_PERMS\<close> cleared only the type check
  is left.
\<close>

lemma mode_check_bypass:
  assumes "flags mreq AND MREQ_FLAG_CHECK_PERMS = 0" and "val node = Some v"
  shows "mstor_mode_check P node mreq want
           = (if want AND ucast (MNODE_IS_DIR P) \<noteq> 0 \<and> get_mode_and_type v AND MNODE_IS_DIR P = 0
              then Inl ENOTDIR
              else if want AND ucast (MNODE_IS_DIR P) = 0 \<and> get_mode_and_type v AND MNODE_IS_DIR P \<noteq> 0
              then Inl EISDIR else Inr ())"
  using assms by (simp add: mstor_mode_check_def Let_def)

section \<open>Claims on rmdir\<close>

text \<open>
  Claim C2: for a request of a user who is not the superuser, rmdir on the root path fails
  with \<^verbatim>\<open>-EPERM\<close> and leaves the store unchanged.

  On the store that \<^verbatim>\<open>mstor_init\<close> has just formatted, alice's \<^verbatim>\<open>rmdir("/")\<close> returns 0
  and the node record of the root is gone: only the version record is left. The walker
  hands \<^verbatim>\<open>mstor_do_rmdir\<close> the root as the parent and its own zeroed parent as the child, so
  the test for the root (\<^verbatim>\<open>pnode->val == NULL\<close>) looks at the wrong node. The same
  happens after the superuser's \<^verbatim>\<open>chmod("/", 0777)\<close> (\<open>store_open_root_reached\<close>), where
  the root grants write to everyone at every position of the mode.
\<close>

theorem rmdir_root_by_user_deletes_root:
  "mstor_do_operation x86 fresh (request ''alice'' ''/'' (MSTOR_OP_RMDIR False))
     = (fresh\<lparr>ldb := [version_record]\<rparr>, Inr NoReply)
   \<and> mstor_do_operation x86 store_open_root (request ''alice'' ''/'' (MSTOR_OP_RMDIR False))
     = (store_open_root\<lparr>ldb := [version_record]\<rparr>, Inr NoReply)"
  by code_simp

text \<open>
  Claim C3: a non-recursive rmdir of an empty directory that is not the root, under a
  writable parent directory, succeeds and deletes exactly the directory's entry in the
  parent and the directory's node record.

  After the superuser's \<^verbatim>\<open>mkdirs("/a")\<close> on the fresh store (\<open>store_a_reached\<close>), the
  superuser's \<^verbatim>\<open>rmdir("/a")\<close> returns \<^verbatim>\<open>-ENOTEMPTY\<close> and writes nothing. With parent and child
  exchanged, the emptiness loop lists the children of the parent, and \<^verbatim>\<open>/a\<close> is one of them.
\<close>

theorem rmdir_empty_dir_not_empty:
  "mstor_do_operation x86 store_a (request ''root'' ''/a'' (MSTOR_OP_RMDIR False))
     = (store_a, Inl ENOTEMPTY)"
  by code_simp

section \<open>Claims on chunks\<close>

text \<open>
  Claim C4: chunkalloc at an offset where the file already has a chunk fails and writes
  nothing; in particular a second \<^verbatim>\<open>chunkalloc(nid, 0)\<close> fails.

  After alice's \<^verbatim>\<open>creat("/f")\<close> and a first \<^verbatim>\<open>chunkalloc(1, 0)\<close> (\<open>store_f_reached\<close>,
  \<open>store_f_0_reached\<close>), the second \<^verbatim>\<open>chunkalloc(1, 0)\<close> returns 0 with a new chunk id and
  overwrites the file-chunk record of offset 0. \<^verbatim>\<open>mstor_chunkfind_impl\<close> is asked for one
  entry and its capacity test \<^verbatim>\<open>num_cinfos + 1 >= max_cinfos\<close> holds before the first entry
  is stored, so it reports no chunk.
\<close>

theorem chunkalloc_twice_succeeds:
  "mstor_do_operation x86 store_f_0 (request ''alice'' [] (MSTOR_OP_CHUNKALLOC 1 0))
     = (store_f_0_again, Inr (ReplyChunk 1 [123, 456]))"
  by code_simp

text \<open>
  Claim C5: chunkfind emits chunks in key order and stops only when a chunk starts after
  the end of the range or when the output array of \<^verbatim>\<open>max_cinfos\<close> entries is full; with
  \<open>k\<close> qualifying chunks and \<^verbatim>\<open>max_cinfos\<close> at least \<open>k\<close>, all \<open>k\<close> are returned.

  The loop stops one entry early. A file with one chunk at offset 0, asked for the range
  [0, 0] with room for one entry, returns no chunk; a file with chunks at 0 and 4096, asked
  for [0, 8191] with room for two, returns the first only.
\<close>

theorem chunkfind_leaves_last_slot_empty:
  "mstor_do_operation x86 store_f_0 (request ''alice'' ''/f'' (MSTOR_OP_CHUNKFIND 0 0 1))
     = (store_f_0, Inr (ReplyCinfos []))
   \<and> mstor_do_operation x86 store_f_0_4096 (request ''alice'' ''/f'' (MSTOR_OP_CHUNKFIND 0 8191 2))
     = (store_f_0_4096, Inr (ReplyCinfos [\<lparr>cid = 0, start = 0\<rparr>]))"
  by code_simp

text \<open>
  In general the loop never fills the array, and with room for one entry it reports no
  chunk, so that \<^verbatim>\<open>mstor_do_chunkalloc\<close> never takes its \<^verbatim>\<open>-EINVAL\<close> branch.
\<close>

lemma chunkfind_loop_short:
  "chunkfind_loop pfx max_cinfos rend base v rest cinfos = Inr cs \<Longrightarrow>
   cs = cinfos \<or> int (length cs) < max_cinfos"
proof (induction pfx max_cinfos rend base v rest cinfos rule: chunkfind_loop.induct)
  case (1 pfx max_cinfos rend base v rest cinfos)
  let ?c = "cinfos @ [\<lparr>cid = unpack_from_be64 v, start = base\<rparr>]"
  from "1.prems" have
    "int (length cinfos) + 1 \<ge> max_cinfos \<and> cs = cinfos
     \<or> \<not> int (length cinfos) + 1 \<ge> max_cinfos \<and> length v = 8 \<and>
        (cs = ?c \<or> (\<exists>k v' rest'. rest = (k, v') # rest'
            \<and> \<not> (length k \<noteq> MFILE_KEY_LEN \<or> take 9 k \<noteq> pfx)
            \<and> \<not> unpack_from_be64 (drop 9 k) > rend
            \<and> chunkfind_loop pfx max_cinfos rend (unpack_from_be64 (drop 9 k)) v' rest' ?c = Inr cs))"
    by (subst (asm) chunkfind_loop.simps) (auto simp: Let_def split: if_splits list.splits)
  then show ?case
  proof (elim disjE conjE exE)
    assume "cs = cinfos"
    then show ?thesis by simp
  next
    assume "\<not> max_cinfos \<le> int (length cinfos) + 1" "cs = ?c"
    then show ?thesis by simp
  next
    fix k v' rest'
    assume a: "\<not> max_cinfos \<le> int (length cinfos) + 1" "length v = 8"
      "rest = (k, v') # rest'" "\<not> (length k \<noteq> MFILE_KEY_LEN \<or> take 9 k \<noteq> pfx)"
      "\<not> rend < unpack_from_be64 (drop 9 k)"
      "chunkfind_loop pfx max_cinfos rend (unpack_from_be64 (drop 9 k)) v' rest' ?c = Inr cs"
    from a(2) have nv: "\<not> length v \<noteq> 8" by simp
    from "1.IH" [OF a(1) nv refl a(3) refl a(4) refl a(5) a(6)]
    have "cs = ?c \<or> int (length cs) < max_cinfos" .
    with a(1) show ?thesis by auto
  qed
qed

lemma chunkfind_never_fills:
  assumes "mstor_chunkfind_impl m n max_cinfos rstart rend = Inr cs" and "0 < max_cinfos"
  shows "int (length cs) < max_cinfos"
proof -
  from assms(1) have "cs = [] \<or> (\<exists>pfx base v rest.
      chunkfind_loop pfx max_cinfos rend base v rest [] = Inr cs)"
    by (auto simp: mstor_chunkfind_impl_def Let_def split: option.splits list.splits if_splits)
  with chunkfind_loop_short assms(2) show ?thesis by fastforce
qed

lemma chunkfind_one_slot:
  "mstor_chunkfind_impl m n 1 rstart rend = Inr cs \<Longrightarrow> cs = []"
  using chunkfind_never_fills [of m n 1 rstart rend cs] by simp

lemma chunkfind_loop_one_slot: "chunkfind_loop pfx 1 rend base v rest [] = Inr []"
  by (subst chunkfind_loop.simps) simp

lemma chunkfind_one_slot_total:
  "mstor_chunkfind_impl m n 1 rstart rend = Inr []
   \<or> mstor_chunkfind_impl m n 1 rstart rend = Inl UNDEFINED"
  by (simp add: mstor_chunkfind_impl_def Let_def chunkfind_loop_one_slot
        split: option.splits list.splits)

lemma fetch_node_not_einval: "mstor_fetch_node m n \<noteq> Inl EINVAL"
  by (simp add: mstor_fetch_node_def split: option.splits)

lemma mode_check_not_einval: "mstor_mode_check P node mreq want \<noteq> Inl EINVAL"
  by (simp add: mstor_mode_check_def Let_def split: option.splits)

lemma next_cid_not_einval: "mstor_next_cid m \<noteq> (m', Inl EINVAL)"
  by (simp add: mstor_next_cid_def Let_def)

lemma chunkalloc_never_einval:
  "snd (mstor_do_chunkalloc P m mreq n off) \<noteq> Inl EINVAL"
proof (cases "mstor_fetch_node m n")
  case (Inl e)
  with fetch_node_not_einval [of m n] show ?thesis
    by (simp add: mstor_do_chunkalloc_def)
next
  case node: (Inr node)
  show ?thesis
  proof (cases "mstor_mode_check P node mreq MSTOR_PERM_WRITE")
    case (Inl e)
    with node mode_check_not_einval [of P node mreq MSTOR_PERM_WRITE] show ?thesis
      by (simp add: mstor_do_chunkalloc_def)
  next
    case ok: (Inr u)
    from chunkfind_one_slot_total [of m n off off] show ?thesis
    proof
      assume "mstor_chunkfind_impl m n 1 off off = Inl UNDEFINED"
      with node ok show ?thesis by (simp add: mstor_do_chunkalloc_def)
    next
      assume none: "mstor_chunkfind_impl m n 1 off off = Inr []"
      obtain m1 r where nc: "mstor_next_cid m = (m1, r)" by (cases "mstor_next_cid m")
      with next_cid_not_einval [of m m1] have "r \<noteq> Inl EINVAL" by auto
      with node ok none nc show ?thesis
        by (cases r) (simp_all add: mstor_do_chunkalloc_def Let_def)
    qed
  qed
qed

text \<open>
  Claim C6: every multi-byte integer in keys and payloads is written big-endian; the chunk
  id of a file-chunk record is, so that chunkfind and the dumper report the chunk id that
  chunkalloc returned.

  \<^verbatim>\<open>mstor_do_chunkalloc\<close> writes the chunk id (and the replica ids) as the host holds them
  in memory. On a little-endian host the second chunk of \<^verbatim>\<open>/f\<close> is allocated as chunk 1,
  stored as the bytes 01 00 00 00 00 00 00 00, and read back by chunkfind and by the dumper
  as chunk 0x0100000000000000.
\<close>

theorem chunkalloc_cid_not_read_back:
  "mstor_do_operation x86 store_f_0 (request ''alice'' [] (MSTOR_OP_CHUNKALLOC 1 4096))
     = (store_f_0_4096, Inr (ReplyChunk 1 [123, 456]))
   \<and> mstor_do_operation x86 store_f_0_4096 (request ''alice'' ''/f'' (MSTOR_OP_CHUNKFIND 4096 4096 2))
     = (store_f_0_4096, Inr (ReplyCinfos [\<lparr>cid = 0x0100000000000000, start = 4096\<rparr>]))
   \<and> leveldb_get (ldb store_f_0_4096) (mfile_key 1 4096) = Some [1, 0, 0, 0, 0, 0, 0, 0]
   \<and> mstor_dump_file_entry (mfile_key 1 4096) [1, 0, 0, 0, 0, 0, 0, 0]
     = Inr (1, 4096, 0x0100000000000000)"
  by code_simp

section \<open>Claims on the replication settings\<close>

text \<open>
  Claim C7: the effective \<^verbatim>\<open>min_repl\<close> and \<^verbatim>\<open>man_repl\<close> come from the configuration, clamped,
  with defaults 2 and 3; a configured \<^verbatim>\<open>man_repl = 5\<close> becomes the store's \<^verbatim>\<open>man_repl\<close>.

  \<^verbatim>\<open>mstor_leveldb_init\<close> passes the fields of the zeroed store object to
  \<^verbatim>\<open>get_valid_repl\<close>, not those of the configuration: with \<^verbatim>\<open>min_repl = 1\<close> and
  \<^verbatim>\<open>man_repl = 5\<close> configured, the store has 2 and 3.
\<close>

theorem init_ignores_configured_repl:
  "mstorc_min_repl conf5 = 1 \<and> mstorc_man_repl conf5 = 5
   \<and> mstor_init x86 conf5 users None 100 = Inr fresh
   \<and> min_repl fresh = 2 \<and> man_repl fresh = 3"
  by code_simp

text \<open>
  Whatever the configuration and the platform, a store that \<^verbatim>\<open>mstor_init\<close> returns has the
  default replication settings.
\<close>

lemma leveldb_init_default_repl:
  "mstor_leveldb_init P (calloc_mstor ud) conf disk = Inr m \<Longrightarrow>
   min_repl m = MSTOR_DEFAULT_MIN_REPL \<and> man_repl m = MSTOR_DEFAULT_MAN_REPL"
  by (auto simp: mstor_leveldb_init_def calloc_mstor_def get_valid_repl_def Let_def
           split: option.splits if_splits)

lemma init_default_repl:
  assumes "mstor_init P conf ud disk t = Inr m"
  shows "min_repl m = MSTOR_DEFAULT_MIN_REPL \<and> man_repl m = MSTOR_DEFAULT_MAN_REPL"
proof -
  from assms obtain m0 where
    m0: "mstor_leveldb_init P (calloc_mstor ud) conf disk = Inr m0"
    and m: "m = mstor_leveldb_create_new P t m0 \<or> mstor_leveldb_load m0 = Inr m"
    by (auto simp: mstor_init_def split: sum.splits if_splits)
  from m have "min_repl m = min_repl m0 \<and> man_repl m = man_repl m0"
    by (auto simp: mstor_leveldb_create_new_def mstor_write_version_def mstor_leveldb_load_def
          Let_def split: sum.splits if_splits)
  with leveldb_init_default_repl [OF m0] show ?thesis by simp
qed

section \<open>The engine keeps its database sorted\<close>

lemma get_put_same: "leveldb_get (leveldb_put db k v) k = Some v"
  by (induction db) (auto simp: leveldb_get_def)

lemma keys_put: "set (map fst (leveldb_put db k v)) = insert k (set (map fst db))"
proof (induction db)
  case Nil
  then show ?case by simp
next
  case (Cons e db)
  obtain k' v' where e: "e = (k', v')" by (cases e)
  from Cons.IH show ?case unfolding e by (cases "k < k'"; cases "k = k'") auto
qed

lemma put_sorted: "ldb_sorted db \<Longrightarrow> ldb_sorted (leveldb_put db k v)"
proof (induction db)
  case Nil
  then show ?case by (simp add: ldb_sorted_def)
next
  case (Cons e db)
  obtain k' v' where e: "e = (k', v')" by (cases e)
  from Cons.prems have tl: "ldb_sorted db" and hd: "\<forall>x\<in>set (map fst db). k' < x"
    by (auto simp: ldb_sorted_def e)
  show ?case
  proof (cases "k < k'")
    case True
    with Cons.prems hd show ?thesis by (auto simp: ldb_sorted_def e)
  next
    case False
    show ?thesis
    proof (cases "k = k'")
      case True
      with Cons.prems show ?thesis by (simp add: ldb_sorted_def e)
    next
      case ne: False
      with False have "k' < k" by simp
      with hd have "\<forall>x\<in>set (map fst (leveldb_put db k v)). k' < x"
        unfolding keys_put by simp
      with Cons.IH [OF tl] False ne show ?thesis by (simp add: ldb_sorted_def e)
    qed
  qed
qed

lemma delete_sorted: "ldb_sorted db \<Longrightarrow> ldb_sorted (leveldb_delete db k)"
  unfolding ldb_sorted_def leveldb_delete_def
  by (induction db) auto

lemma write_sorted: "ldb_sorted db \<Longrightarrow> ldb_sorted (leveldb_write db bat)"
proof (induction bat arbitrary: db)
  case Nil
  then show ?case by (simp add: leveldb_write_def)
next
  case (Cons b bat)
  have "ldb_sorted (apply_batch_op db b)"
    using Cons.prems by (cases b) (simp_all add: put_sorted delete_sorted)
  from Cons.IH [OF this] show ?case by (simp add: leveldb_write_def)
qed

section \<open>Big-endian packing: round trip and order\<close>

lemma be_step:
  "push_bit 8 (drop_bit (k + 8) w) OR ucast (ucast (drop_bit k w) :: 8 word) = drop_bit k (w :: 'a::len word)"
  apply (rule bit_word_eqI)
  apply (auto simp: bit_simps)
  done

lemma be_top:
  "LENGTH('a) \<le> k + 8 \<Longrightarrow> ucast (ucast (drop_bit k w) :: 8 word) = drop_bit k (w :: 'a::len word)"
  apply (rule bit_word_eqI)
  apply (auto simp: bit_simps dest: bit_imp_le_length)
  done

lemma unpack_pack16: "unpack_from_be16 (pack_to_be16 w) = w"
  using be_step [of 0 w] be_top [of 8 w]
  by (simp add: unpack_from_be16_def pack_to_be16_def)

lemma unpack_pack32: "unpack_from_be32 (pack_to_be32 w) = w"
  using be_step [of 0 w] be_step [of 8 w] be_step [of 16 w] be_top [of 24 w]
  by (simp add: unpack_from_be32_def pack_to_be32_def)

lemma unpack_pack64: "unpack_from_be64 (pack_to_be64 w) = w"
  using be_step [of 0 w] be_step [of 8 w] be_step [of 16 w] be_step [of 24 w]
    be_step [of 32 w] be_step [of 40 w] be_step [of 48 w] be_top [of 56 w]
  by (simp add: unpack_from_be64_def pack_to_be64_def)

lemma mul_add_less_iff:
  fixes x y r s A :: nat
  assumes "r < A" "s < A"
  shows "(x * A + r < y * A + s) = (x < y \<or> (x = y \<and> r < s))"
proof -
  have up: "a * A + p < b * A + q" if "a < b" "p < A" for a b p q :: nat
  proof -
    from that have "Suc a * A \<le> b * A" by (intro mult_le_mono1) simp
    with that show ?thesis by simp
  qed
  consider "x < y" | "x = y" | "y < x" by arith
  then show ?thesis
  proof cases
    case 1
    with up [OF 1 assms(1)] show ?thesis by simp
  next
    case 2
    then show ?thesis by simp
  next
    case 3
    from up [OF 3 assms(2), of r] 3 show ?thesis by simp
  qed
qed

lemma val_be_less: "val_be xs < 256 ^ length xs"
proof (induction xs)
  case Nil
  then show ?case by simp
next
  case (Cons x xs)
  have "unat x < 256" using unsigned_less [of x] by simp
  then have "unat x * 256 ^ length xs + val_be xs < Suc (unat x) * 256 ^ length xs"
    using Cons.IH by simp
  also have "\<dots> \<le> 256 * 256 ^ length xs"
    using \<open>unat x < 256\<close> by (intro mult_le_mono1) simp
  finally show ?case by simp
qed

lemma less_bytes_iff_val_be:
  "length xs = length ys \<Longrightarrow> (xs < ys) = (val_be xs < val_be ys)"
proof (induction xs ys rule: list_induct2)
  case Nil
  then show ?case by simp
next
  case (Cons x xs y ys)
  have "(x # xs < y # ys) = (x < y \<or> (x = y \<and> xs < ys))" by auto
  also have "\<dots> = (unat x < unat y \<or> (unat x = unat y \<and> val_be xs < val_be ys))"
    using Cons.IH word_unat_eq_iff [of x y] by (simp add: word_less_nat_alt)
  also have "\<dots> = (val_be (x # xs) < val_be (y # ys))"
    using mul_add_less_iff [OF val_be_less [of xs], of "val_be ys" "unat x" "unat y"]
      val_be_less [of ys] Cons.hyps by simp
  finally show ?case .
qed

lemma unat_be_step:
  assumes "unat (a :: 64 word) < 2 ^ 56"
  shows "unat (push_bit 8 a OR ucast (b :: 8 word)) = unat a * 256 + unat b"
proof -
  have b: "unat b < 2 ^ 8" using unsigned_less [of b] by simp
  have "push_bit 8 (unat a) < 2 ^ 64"
    using assms by (simp add: push_bit_eq_mult)
  then have pa: "unat (push_bit 8 a) = push_bit 8 (unat a)"
    by (simp add: unsigned_push_bit_eq take_bit_nat_eq_self)
  have ub: "unat (ucast b :: 64 word) = unat b"
    using b by (simp add: unsigned_ucast_eq take_bit_nat_eq_self)
  have "unat (push_bit 8 a OR ucast b) = push_bit 8 (unat a) OR unat b"
    by (simp add: unsigned_or_eq pa ub)
  also have "\<dots> = push_bit 8 (unat a) + unat b"
  proof (rule disjunctive_add [symmetric])
    fix n
    show "\<not> bit (push_bit 8 (unat a)) n \<or> \<not> bit (unat b) n"
    proof (cases "n < 8")
      case True
      then show ?thesis by (simp add: bit_simps)
    next
      case False
      then have "2 ^ 8 \<le> (2::nat) ^ n" by (intro power_increasing) simp_all
      with b have "unat b < 2 ^ n" by simp
      then have "\<not> bit (unat b) n" by (simp add: bit_iff_odd)
      then show ?thesis by simp
    qed
  qed
  finally show ?thesis by (simp add: push_bit_eq_mult)
qed

lemma unat_foldl_be:
  "unat a * 256 ^ length xs + val_be xs < 2 ^ 64 \<Longrightarrow>
   unat (foldl (\<lambda>a b. push_bit 8 a OR ucast b) (a :: 64 word) xs)
     = unat a * 256 ^ length xs + val_be xs"
proof (induction xs arbitrary: a)
  case Nil
  then show ?case by simp
next
  case (Cons x xs)
  have pos: "(0::nat) < 256 ^ length xs" by simp
  from Cons.prems have "unat a * 256 * 256 ^ length xs < 2 ^ 64" by (simp add: mult.assoc)
  then have "unat a * 256 * 1 < 2 ^ 64"
    by (metis (no_types) pos One_nat_def Suc_leI le_less_trans mult_le_mono2)
  then have a56: "unat a < 2 ^ 56" by simp
  let ?a' = "push_bit 8 a OR ucast x"
  have ua': "unat ?a' = unat a * 256 + unat x" by (rule unat_be_step [OF a56])
  have eq: "unat ?a' * 256 ^ length xs + val_be xs
            = unat a * 256 ^ length (x # xs) + val_be (x # xs)"
    by (simp add: ua' algebra_simps)
  with Cons.prems have "unat ?a' * 256 ^ length xs + val_be xs < 2 ^ 64" by simp
  from Cons.IH [OF this] eq show ?case by simp
qed

lemma unat_unpack_from_be64:
  assumes "length xs = 8"
  shows "unat (unpack_from_be64 xs) = val_be xs"
proof -
  have "val_be xs < 2 ^ 64" using val_be_less [of xs] assms by simp
  then show ?thesis
    using unat_foldl_be [of 0 xs] assms by (simp add: unpack_from_be64_def)
qed

lemma less_bytes_iff_unpack:
  "length xs = 8 \<Longrightarrow> length ys = 8 \<Longrightarrow> (xs < ys) = (unpack_from_be64 xs < unpack_from_be64 ys)"
  by (simp add: word_less_nat_alt unat_unpack_from_be64 less_bytes_iff_val_be)

lemma length_pack_to_be64 [simp]: "length (pack_to_be64 w) = 8"
  by (simp add: pack_to_be64_def)

section \<open>Seeking in a sorted database\<close>

lemma takeWhile_sorted_filter:
  "sorted_wrt (<) (map fst db) \<Longrightarrow>
   takeWhile (\<lambda>e. fst e < k) db = filter (\<lambda>e. fst e < (k::bytes)) db"
proof (induction db)
  case Nil
  then show ?case by simp
next
  case (Cons e db)
  show ?case
  proof (cases "fst e < k")
    case True
    with Cons show ?thesis by simp
  next
    case False
    from Cons.prems have "\<forall>x\<in>set db. fst e < fst x" by simp
    with False have "\<forall>x\<in>set db. \<not> fst x < k" by (meson less_trans)
    then have "filter (\<lambda>e. fst e < k) db = []" by (simp add: filter_empty_conv)
    with False show ?thesis by simp
  qed
qed

lemma sorted_wrt_last_max:
  "sorted_wrt R xs \<Longrightarrow> x \<in> set xs \<Longrightarrow> x = last xs \<or> R x (last xs)"
proof (induction xs)
  case Nil
  then show ?case by simp
next
  case (Cons y ys)
  show ?case
  proof (cases "ys = []")
    case True
    with Cons.prems show ?thesis by simp
  next
    case False
    then have l: "last (y # ys) = last ys" by simp
    from False have "last ys \<in> set ys" by simp
    with Cons show ?thesis unfolding l by auto
  qed
qed

text \<open>The entry under the iterator after a seek to \<open>k\<close> and one step back.\<close>

lemma seek_prev:
  assumes "ldb_sorted db" and "\<exists>e\<in>set db. \<not> fst e < k"
  shows "\<exists>it. leveldb_iter_prev (leveldb_iter_seek db k) = Some it
           \<and> (snd it = [] \<and> (\<forall>e\<in>set db. \<not> fst e < k)
              \<or> (\<exists>e a. snd it = e # a \<and> e \<in> set db \<and> fst e < k
                        \<and> (\<forall>x\<in>set db. fst x < k \<longrightarrow> fst x \<le> fst e)))"
proof -
  let ?tw = "takeWhile (\<lambda>e. fst e < k) db"
  let ?dw = "dropWhile (\<lambda>e. fst e < k) db"
  from assms(2) have "?dw \<noteq> []" by (simp add: dropWhile_eq_Nil_conv)
  then obtain d ds where dw: "?dw = d # ds" by (cases ?dw) auto
  from assms(1) have tw: "?tw = filter (\<lambda>e. fst e < k) db"
    unfolding ldb_sorted_def by (rule takeWhile_sorted_filter)
  show ?thesis
  proof (cases "?tw = []")
    case True
    then have "\<forall>e\<in>set db. \<not> fst e < k" unfolding tw by (simp add: filter_empty_conv)
    with True dw show ?thesis by (simp add: leveldb_iter_seek_def)
  next
    case False
    then have "?tw = butlast ?tw @ [last ?tw]" by simp
    then have "rev ?tw = rev (butlast ?tw @ [last ?tw])" by simp
    then have r: "rev ?tw = last ?tw # rev (butlast ?tw)" by simp
    have prev: "leveldb_iter_prev (leveldb_iter_seek db k)
                  = Some (rev (butlast ?tw), last ?tw # d # ds)"
      by (simp add: leveldb_iter_seek_def r dw)
    from False have lin: "last ?tw \<in> set ?tw" by simp
    then have "last ?tw \<in> set db" "fst (last ?tw) < k" unfolding tw by auto
    moreover have "\<forall>x\<in>set db. fst x < k \<longrightarrow> fst x \<le> fst (last ?tw)"
    proof (intro ballI impI)
      fix x assume "x \<in> set db" "fst x < k"
      then have xin: "x \<in> set ?tw" unfolding tw by simp
      from assms(1) have "sorted_wrt (\<lambda>a b. fst a < fst b) db"
        by (simp add: ldb_sorted_def sorted_wrt_map)
      then have "sorted_wrt (\<lambda>a b. fst a < fst b) ?tw"
        unfolding tw by (rule sorted_wrt_filter)
      from sorted_wrt_last_max [OF this xin] show "fst x \<le> fst (last ?tw)" by auto
    qed
    ultimately have "\<exists>e a. snd (rev (butlast ?tw), last ?tw # d # ds) = e # a \<and> e \<in> set db
                      \<and> fst e < k \<and> (\<forall>x\<in>set db. fst x < k \<longrightarrow> fst x \<le> fst e)"
      by (intro exI [of _ "last ?tw"] exI [of _ "d # ds"]) simp
    with prev show ?thesis by blast
  qed
qed

lemma family_key_shape:
  assumes "family_ok t lim db" and "k \<in> set (family_keys t db)"
  shows "k = t # tl k" and "length (tl k) = 8" and "unpack_from_be64 (tl k) < lim"
    and "k < t # pack_to_be64 lim"
proof -
  from assms(2) have ne: "k \<noteq> []" and hd: "hd k = t" by (auto simp: family_keys_def)
  from assms have len: "length k = 9" and lt: "unpack_from_be64 (tl k) < lim"
    by (auto simp: family_ok_def list_all_iff)
  from ne hd show k: "k = t # tl k" by (cases k) auto
  from len show l8: "length (tl k) = 8" by simp
  from lt show "unpack_from_be64 (tl k) < lim" .
  have "(t # tl k < t # pack_to_be64 lim) = (tl k < pack_to_be64 lim)" by simp
  also have "\<dots> = (unpack_from_be64 (tl k) < unpack_from_be64 (pack_to_be64 lim))"
    using l8 by (simp add: less_bytes_iff_unpack)
  finally show "k < t # pack_to_be64 lim" using lt k by (simp add: unpack_pack64)
qed

lemma between_family:
  assumes "t # xs \<le> k" and "k < t # ys"
  shows "k \<noteq> [] \<and> hd k = (t::byte)"
proof (cases k)
  case Nil
  with assms(1) show ?thesis by simp
next
  case (Cons a as)
  with assms have "t < a \<or> t = a" "a < t \<or> a = t" by auto
  with Cons show ?thesis by auto
qed

lemma in_family_keys:
  "e \<in> set db \<Longrightarrow> fst e \<noteq> [] \<Longrightarrow> hd (fst e) = t \<Longrightarrow> fst e \<in> set (family_keys t db)"
  by (auto simp: family_keys_def)

lemma seek_prev_family_max:
  assumes sorted: "ldb_sorted db" and ok: "family_ok t lim db"
    and valid: "\<exists>e\<in>set db. \<not> fst e < t # pack_to_be64 lim"
    and ne: "family_ids t db \<noteq> []"
  shows "\<exists>it k v a. leveldb_iter_prev (leveldb_iter_seek db (t # pack_to_be64 lim)) = Some it
           \<and> snd it = (k, v) # a \<and> length k = 9 \<and> hd k = t
           \<and> unpack_from_be64 (tl k) = Max (set (family_ids t db))"
proof -
  let ?target = "t # pack_to_be64 lim"
  from ne obtain k0 where k0: "k0 \<in> set (family_keys t db)"
    by (cases "family_keys t db") (auto simp: family_ids_def)
  then obtain e0 where e0: "e0 \<in> set db" "fst e0 = k0" by (auto simp: family_keys_def)
  from family_key_shape [OF ok k0] have k0lt: "k0 < ?target" and k0s: "k0 = t # tl k0" by auto
  from seek_prev [OF sorted valid] obtain it where
    prev: "leveldb_iter_prev (leveldb_iter_seek db ?target) = Some it"
    and alt: "snd it = [] \<and> (\<forall>e\<in>set db. \<not> fst e < ?target)
              \<or> (\<exists>e a. snd it = e # a \<and> e \<in> set db \<and> fst e < ?target
                        \<and> (\<forall>x\<in>set db. fst x < ?target \<longrightarrow> fst x \<le> fst e))"
    by blast
  from alt e0 k0lt obtain e a where
    it: "snd it = e # a" and ein: "e \<in> set db" and elt: "fst e < ?target"
    and emax: "\<forall>x\<in>set db. fst x < ?target \<longrightarrow> fst x \<le> fst e"
    by auto
  from emax e0 k0lt have "k0 \<le> fst e" by auto
  with k0s have "t # tl k0 \<le> fst e" by simp
  from between_family [OF this elt] have "fst e \<noteq> []" "hd (fst e) = t" by auto
  from in_family_keys [OF ein this] have ek: "fst e \<in> set (family_keys t db)" .
  from family_key_shape [OF ok ek] have es: "fst e = t # tl (fst e)" "length (tl (fst e)) = 8" by auto
  have "length (t # tl (fst e)) = 9" using es(2) by simp
  with es(1) have len9: "length (fst e) = 9" by simp
  have "Max (set (family_ids t db)) = unpack_from_be64 (tl (fst e))"
  proof (rule Max_eqI)
    show "finite (set (family_ids t db))" by simp
    show "unpack_from_be64 (tl (fst e)) \<in> set (family_ids t db)"
      using ek by (auto simp: family_ids_def)
    fix y assume "y \<in> set (family_ids t db)"
    then obtain k where k: "k \<in> set (family_keys t db)" and y: "y = unpack_from_be64 (tl k)"
      by (auto simp: family_ids_def)
    from k obtain x where x: "x \<in> set db" "fst x = k" by (auto simp: family_keys_def)
    from family_key_shape [OF ok k] have ks: "k = t # tl k" "length (tl k) = 8" "k < ?target" by auto
    from emax x ks(3) have "k \<le> fst e" by auto
    then have "t # tl k \<le> t # tl (fst e)" using ks(1) es(1) by simp
    then have "tl k \<le> tl (fst e)" by simp
    then have "\<not> tl (fst e) < tl k" by simp
    then have "\<not> unpack_from_be64 (tl (fst e)) < unpack_from_be64 (tl k)"
      using less_bytes_iff_unpack [OF es(2) ks(2)] by simp
    then show "y \<le> unpack_from_be64 (tl (fst e))" unfolding y by simp
  qed
  with prev it len9 \<open>hd (fst e) = t\<close> show ?thesis
    by (cases e) auto
qed

lemma seek_prev_family_none:
  assumes sorted: "ldb_sorted db"
    and valid: "\<exists>e\<in>set db. \<not> fst e < k"
    and none: "family_ids t db = []"
  shows "\<exists>it. leveldb_iter_prev (leveldb_iter_seek db k) = Some it
           \<and> (snd it = [] \<or> (\<exists>k' v a. snd it = (k', v) # a \<and> (length k' \<noteq> 9 \<or> hd k' \<noteq> t)))"
proof -
  from seek_prev [OF sorted valid] obtain it where
    prev: "leveldb_iter_prev (leveldb_iter_seek db k) = Some it"
    and alt: "snd it = [] \<or> (\<exists>e a. snd it = e # a \<and> e \<in> set db)"
    by blast
  from alt show ?thesis
  proof
    assume "snd it = []"
    with prev show ?thesis by simp
  next
    assume "\<exists>e a. snd it = e # a \<and> e \<in> set db"
    then obtain e a where it: "snd it = e # a" and ein: "e \<in> set db" by blast
    from none have "family_keys t db = []" by (simp add: family_ids_def)
    with in_family_keys [OF ein] have "fst e = [] \<or> hd (fst e) \<noteq> t" by auto
    then have "length (fst e) \<noteq> 9 \<or> hd (fst e) \<noteq> t" by auto
    with prev it show ?thesis by (cases e) auto
  qed
qed

section \<open>Recovery of the id counters\<close>

lemma word_less_succ:
  fixes a b c :: "64 word"
  assumes "a \<le> b" and "b < c"
  shows "a < b + 1"
proof -
  from assms(2) have "unat b < unat c" by (simp add: word_less_nat_alt)
  moreover have "unat c < 2 ^ 64" using unsigned_less [of c] by simp
  ultimately have "unat b + unat (1 :: 64 word) < 2 ^ LENGTH(64)" by simp
  from unat_add_lem [THEN iffD1, OF this] have "unat (b + 1) = unat b + 1" by simp
  moreover from assms(1) have "unat a \<le> unat b" by (simp add: word_le_nat_alt)
  ultimately show ?thesis by (simp add: word_less_nat_alt)
qed

text \<open>Within one run the allocators hand out increasing ids.\<close>

lemma next_nid_increases:
  assumes "mstor_next_nid m = (m', Inr n)"
  shows "n = next_nid m \<and> n < next_nid m'"
proof -
  from assms have n: "n = next_nid m" and m': "next_nid m' = n + 1" and le: "n \<le> MSTOR_NID_MAX"
    by (auto simp: mstor_next_nid_def Let_def split: if_splits)
  have "MSTOR_NID_MAX < 0xffffffffffff0001" by (simp add: MSTOR_NID_MAX_def)
  with le have "n < 0xffffffffffff0001" by (rule le_less_trans)
  from word_less_succ [OF order_refl this] n m' show ?thesis by simp
qed

lemma next_cid_increases:
  assumes "mstor_next_cid m = (m', Inr c)"
  shows "c = next_cid m \<and> c < next_cid m'"
proof -
  from assms have c: "c = next_cid m" and m': "next_cid m' = c + 1" and le: "c \<le> MSTOR_NID_MAX"
    by (auto simp: mstor_next_cid_def Let_def split: if_splits)
  have "MSTOR_NID_MAX < 0xffffffffffff0001" by (simp add: MSTOR_NID_MAX_def)
  with le have "c < 0xffffffffffff0001" by (rule le_less_trans)
  from word_less_succ [OF order_refl this] c m' show ?thesis by simp
qed

lemma version_key_after_families:
  "\<not> cstr ''v'' < mnode_key n" "\<not> cstr ''v'' < mchunk_key c"
  by (simp_all add: cstr_def byte_of_char_def mnode_key_def mchunk_key_def)

lemma get_in_set: "leveldb_get db k = Some v \<Longrightarrow> (k, v) \<in> set db"
  by (simp add: leveldb_get_def map_of_SomeD)

lemma read_version_current:
  "leveldb_get (ldb m) (cstr ''v'') = Some (MSTOR_VERSION_MAGIC @ pack_to_be32 MSTOR_CUR_VERSION)
   \<Longrightarrow> mstor_read_version m = MSTOR_CUR_VERSION"
  by (simp add: mstor_read_version_def mstor_parse_version_def MSTOR_VERSION_MAGIC_def
        MSTOR_VERSION_BODY_LEN_def MSTOR_VERSION_MAGIC_LEN_def cstr_def pack_to_be32_def
        unpack_from_be32_def MSTOR_CUR_VERSION_def MSTOR_VERSION_INVAL_def)

lemma load_next_nid_max:
  assumes "ldb_sorted db" and "family_ok (byte_of_char CHR ''n'') MSTOR_NID_MAX db"
    and "\<exists>e\<in>set db. \<not> fst e < mnode_key MSTOR_NID_MAX" and "node_ids db \<noteq> []"
  shows "mstor_load_next_nid db = Inr (Max (set (node_ids db)) + 1)"
  using seek_prev_family_max [OF assms(1,2), unfolded mnode_key_def [symmetric], OF assms(3)]
    assms(4)
  by (auto simp: mstor_load_next_nid_def node_ids_def MNODE_KEY_LEN_def)

lemma load_next_cid_max:
  assumes "ldb_sorted db" and "family_ok (byte_of_char CHR ''h'') MSTOR_CID_MAX db"
    and "\<exists>e\<in>set db. \<not> fst e < mchunk_key MSTOR_CID_MAX"
  shows "mstor_load_next_cid db
           = Inr (if chunk_ids db = [] then 1 else Max (set (chunk_ids db)) + 1)"
proof (cases "chunk_ids db = []")
  case True
  then have "family_ids (byte_of_char CHR ''h'') db = []" by (simp add: chunk_ids_def)
  from seek_prev_family_none [OF assms(1,3) this] obtain it where
    "leveldb_iter_prev (leveldb_iter_seek db (mchunk_key MSTOR_CID_MAX)) = Some it"
    "snd it = [] \<or> (\<exists>k' v a. snd it = (k', v) # a
                          \<and> (length k' \<noteq> 9 \<or> hd k' \<noteq> byte_of_char CHR ''h''))"
    by blast
  with True show ?thesis
    by (auto simp: mstor_load_next_cid_def MCHUNK_KEY_LEN_def)
next
  case False
  from seek_prev_family_max [OF assms(1,2), unfolded mchunk_key_def [symmetric], OF assms(3)] False
  show ?thesis
    by (auto simp: mstor_load_next_cid_def chunk_ids_def MCHUNK_KEY_LEN_def)
qed

lemma family_ids_below:
  "family_ok t lim db \<Longrightarrow> i \<in> set (family_ids t db) \<Longrightarrow> i < lim"
  by (auto simp: family_ok_def family_ids_def list_all_iff)

text \<open>
  Claim C8: after closing and re-opening a non-empty store, \<^verbatim>\<open>next_nid\<close> is one more than
  the largest node id among the node records, and \<^verbatim>\<open>next_cid\<close> is one more than the largest
  chunk id among the chunk-replica records, or 1 when there is none; hence every id
  allocated after recovery is greater than every id persisted before.

  The store that is re-opened is a database as the engine keeps it (sorted), with the
  version record of this format, at least one node record, and node and chunk-replica
  records of the schema: nine-byte keys whose ids are below the allocation ceiling.
  \<^verbatim>\<open>mstor_init\<close> then returns a store on the same database whose counters are as claimed;
  every persisted id is below its counter, and the next allocation of each family returns
  the counter itself.
\<close>

theorem reopen_recovers_counters:
  assumes sorted: "ldb_sorted db"
    and version: "leveldb_get db (cstr ''v'')
                    = Some (MSTOR_VERSION_MAGIC @ pack_to_be32 MSTOR_CUR_VERSION)"
    and nodes: "family_ok (byte_of_char CHR ''n'') MSTOR_NID_MAX db"
    and chunks: "family_ok (byte_of_char CHR ''h'') MSTOR_CID_MAX db"
    and some_node: "node_ids db \<noteq> []"
  shows "\<exists>m. mstor_init P conf ud (Some db) t = Inr m \<and> ldb m = db
           \<and> next_nid m = Max (set (node_ids db)) + 1
           \<and> next_cid m = (if chunk_ids db = [] then 1 else Max (set (chunk_ids db)) + 1)
           \<and> (\<forall>n\<in>set (node_ids db). n < next_nid m)
           \<and> (\<forall>c\<in>set (chunk_ids db). c < next_cid m)
           \<and> snd (mstor_next_nid m) = Inr (next_nid m)
           \<and> snd (mstor_next_cid m) = Inr (next_cid m)"
proof -
  let ?nn = "Max (set (node_ids db)) + 1"
  let ?nc = "if chunk_ids db = [] then 1 else Max (set (chunk_ids db)) + 1"
  from get_in_set [OF version] version_key_after_families
  have v1: "\<exists>e\<in>set db. \<not> fst e < mnode_key MSTOR_NID_MAX"
    and v2: "\<exists>e\<in>set db. \<not> fst e < mchunk_key MSTOR_CID_MAX"
    by force+
  obtain m0 where m0: "mstor_leveldb_init P (calloc_mstor ud) conf (Some db) = Inr m0"
    and ldb0: "ldb m0 = db"
    by (simp add: mstor_leveldb_init_def Let_def)
  from some_node have "db \<noteq> []" by (auto simp: node_ids_def family_ids_def family_keys_def)
  then have ne: "\<not> mstor_leveldb_is_empty m0"
    by (simp add: mstor_leveldb_is_empty_def leveldb_iter_valid_def
          leveldb_iter_seek_to_first_def ldb0)
  have load: "mstor_leveldb_load m0 = Inr (m0\<lparr>next_nid := ?nn, next_cid := ?nc\<rparr>)"
    using read_version_current [of m0] version
      load_next_nid_max [OF sorted nodes v1 some_node] load_next_cid_max [OF sorted chunks v2]
    by (simp add: mstor_leveldb_load_def ldb0 Let_def MSTOR_CUR_VERSION_def
          MSTOR_VERSION_INVAL_def)
  let ?m = "m0\<lparr>next_nid := ?nn, next_cid := ?nc\<rparr>"
  have init: "mstor_init P conf ud (Some db) t = Inr ?m"
    using m0 ne load by (simp add: mstor_init_def)
  have maxn: "Max (set (node_ids db)) < MSTOR_NID_MAX"
    using family_ids_below [OF nodes, of "Max (set (node_ids db))"] some_node
    by (simp add: node_ids_def)
  have n_lt: "\<forall>n\<in>set (node_ids db). n < ?nn"
    using word_less_succ [OF _ maxn] by simp
  have maxc: "chunk_ids db \<noteq> [] \<Longrightarrow> Max (set (chunk_ids db)) < MSTOR_CID_MAX"
    using family_ids_below [OF chunks, of "Max (set (chunk_ids db))"]
    by (simp add: chunk_ids_def)
  have c_lt: "\<forall>c\<in>set (chunk_ids db). c < ?nc"
    using word_less_succ [OF _ maxc] by auto
  have nn_le: "?nn \<le> MSTOR_NID_MAX" using maxn by (rule inc_le)
  have nc_le: "?nc \<le> MSTOR_NID_MAX"
    using inc_le [OF maxc] by (auto simp: MSTOR_NID_MAX_def MSTOR_CID_MAX_def)
  from nn_le have a1: "snd (mstor_next_nid ?m) = Inr ?nn"
    by (simp add: mstor_next_nid_def Let_def not_less [symmetric])
  from nc_le have a2: "snd (mstor_next_cid ?m) = Inr ?nc"
    by (simp add: mstor_next_cid_def Let_def not_less [symmetric])
  from init ldb0 n_lt c_lt a1 a2 show ?thesis
    by (intro exI [of _ ?m]) simp
qed

theorem reopen_recovers_counters_witness:
  "mstor_init x86 conf5 users (Some (ldb store_f_0_4096)) 500 = Inr store_f_0_4096
   \<and> node_ids (ldb store_f_0_4096) = [0, 1]
   \<and> chunk_ids (ldb store_f_0_4096) = [0, 1]
   \<and> next_nid store_f_0_4096 = 2 \<and> next_cid store_f_0_4096 = 2"
proof -
  let ?db = "ldb store_f_0_4096"
  have h1: "ldb_sorted ?db" by code_simp
  have h2: "leveldb_get ?db (cstr ''v'')
              = Some (MSTOR_VERSION_MAGIC @ pack_to_be32 MSTOR_CUR_VERSION)" by code_simp
  have h3: "family_ok (byte_of_char CHR ''n'') MSTOR_NID_MAX ?db" by code_simp
  have h4: "family_ok (byte_of_char CHR ''h'') MSTOR_CID_MAX ?db" by code_simp
  have n: "node_ids ?db = [0, 1]" by code_simp
  have c: "chunk_ids ?db = [0, 1]" by code_simp
  from n have h5: "node_ids ?db \<noteq> []" by simp
  from reopen_recovers_counters [OF h1 h2 h3 h4 h5, of x86 conf5 users 500] obtain m where
    m: "mstor_init x86 conf5 users (Some ?db) 500 = Inr m"
       "next_nid m = Max (set (node_ids ?db)) + 1"
       "next_cid m = (if chunk_ids ?db = [] then 1 else Max (set (chunk_ids ?db)) + 1)"
    by blast
  have i: "mstor_init x86 conf5 users (Some ?db) 500 = Inr store_f_0_4096" by code_simp
  with m(1) have "m = store_f_0_4096" by simp
  with m(2,3) n c have "next_nid store_f_0_4096 = 2" "next_cid store_f_0_4096 = 2"
    by simp_all
  with i n c show ?thesis by simp
qed

section \<open>Requests on paths that exist\<close>

lemma fetch_node_val:
  "mstor_fetch_node m n = Inr c \<Longrightarrow>
     nid c = n \<and> (\<exists>v. val c = Some v \<and> length v = sizeof_mnode_payload
                     \<and> leveldb_get (ldb m) (mnode_key n) = Some v)"
  by (auto simp: mstor_fetch_node_def split: option.splits if_splits)

lemma fetch_child_val:
  "mstor_fetch_child P m mreq pc pn = Inr c \<Longrightarrow>
     \<exists>v. val c = Some v \<and> length v = sizeof_mnode_payload
          \<and> leveldb_get (ldb m) (mnode_key (nid c)) = Some v"
  by (auto simp: mstor_fetch_child_def split: sum.splits option.splits if_splits
           dest!: fetch_node_val)

lemma traverse_val:
  "traverse P m mreq pcomp comps pnode cnode = Inr (pc, pn, cn) \<Longrightarrow>
   (\<exists>v. val cnode = Some v \<and> length v = sizeof_mnode_payload
         \<and> leveldb_get (ldb m) (mnode_key (nid cnode)) = Some v) \<Longrightarrow>
   \<exists>v. val cn = Some v \<and> length v = sizeof_mnode_payload
        \<and> leveldb_get (ldb m) (mnode_key (nid cn)) = Some v"
proof (induction comps arbitrary: pcomp pnode cnode)
  case Nil
  then show ?case by simp
next
  case (Cons pc' rest)
  from Cons.prems(1) obtain c' where
    fc: "mstor_fetch_child P m mreq pc' cnode = Inr c'"
    and tr: "traverse P m mreq pc' rest cnode c' = Inr (pc, pn, cn)"
    by (auto split: sum.splits)
  from Cons.IH [OF tr fetch_child_val [OF fc]] show ?case .
qed

lemma traverse_path_loop:
  "traverse P m mreq pcomp comps pnode cnode = Inr (pc, pn, cn) \<Longrightarrow>
   path_loop P m mreq pcomp comps pnode cnode = Reached m mreq pc pn cn"
proof (induction comps arbitrary: pcomp pnode cnode)
  case Nil
  then show ?case by simp
next
  case (Cons pc' rest)
  from Cons.prems obtain c' where
    fc: "mstor_fetch_child P m mreq pc' cnode = Inr c'"
    and tr: "traverse P m mreq pc' rest cnode c' = Inr (pc, pn, cn)"
    by (auto split: sum.splits)
  from Cons.IH [OF tr] fc show ?case by simp
qed

lemma op_path_mreq: "op (path_mreq P mreq) = op mreq"
  by (simp add: path_mreq_def Let_def)

lemma resolve_path_operation:
  assumes "resolve P m mreq = Inr (pc, pn, cn)"
  shows "mstor_do_path_operation P m mreq = path_switch P m (path_mreq P mreq) pc pn cn"
    and "\<exists>v. val cn = Some v \<and> length v = sizeof_mnode_payload
             \<and> leveldb_get (ldb m) (mnode_key (nid cn)) = Some v"
proof -
  from assms obtain p root where
    len: "\<not> length (full_path (path_mreq P mreq)) \<ge> RF_PATH_MAX P"
    and cp: "canonicalize_path P (full_path (path_mreq P mreq)) = Inr p"
    and rt: "mstor_fetch_node m MSTOR_ROOT_NID = Inr root"
    and tr: "traverse P m (path_mreq P mreq) (fst (path_components p)) (snd (path_components p))
               zero_mnode root = Inr (pc, pn, cn)"
    by (auto simp: resolve_def Let_def split: if_splits sum.splits)
  from traverse_path_loop [OF tr] len cp rt
  show "mstor_do_path_operation P m mreq = path_switch P m (path_mreq P mreq) pc pn cn"
    by (simp add: mstor_do_path_operation_def Let_def)
  from fetch_node_val [OF rt] have
    "\<exists>v. val root = Some v \<and> length v = sizeof_mnode_payload
         \<and> leveldb_get (ldb m) (mnode_key (nid root)) = Some v"
    by auto
  from traverse_val [OF tr this]
  show "\<exists>v. val cn = Some v \<and> length v = sizeof_mnode_payload
             \<and> leveldb_get (ldb m) (mnode_key (nid cn)) = Some v" .
qed

text \<open>
  Where every component exists the walker never reaches its \<^verbatim>\<open>-ENOENT\<close> branch, the only
  place where it writes: the request gets the error of the traversal or arrives at the
  final \<^verbatim>\<open>switch\<close>, on the store it was given.
\<close>

lemma mode_check_not_enoent: "mstor_mode_check P node mreq want \<noteq> Inl ENOENT"
  by (simp add: mstor_mode_check_def Let_def split: option.splits)

lemma lookup_nid_node:
  "lookup_nid P db n comps \<noteq> None \<Longrightarrow> leveldb_get db (mnode_key n) \<noteq> None"
  by (cases comps) (auto split: if_splits)

lemma fetch_node_enoent:
  "mstor_fetch_node m n = Inl ENOENT \<Longrightarrow> leveldb_get (ldb m) (mnode_key n) = None"
  by (auto simp: mstor_fetch_node_def split: option.splits if_splits)

lemma fetch_child_existing:
  assumes "lookup_nid P (ldb m) (nid pn) (pc # rest) \<noteq> None"
  shows "mstor_fetch_child P m mreq pc pn \<noteq> Inl ENOENT"
    and "mstor_fetch_child P m mreq pc pn = Inr c \<Longrightarrow> lookup_nid P (ldb m) (nid c) rest \<noteq> None"
proof -
  from assms obtain ckey v where
    k: "mchild_key P (nid pn) pc = Some ckey" and g: "leveldb_get (ldb m) ckey = Some v"
    and l: "lookup_nid P (ldb m) (unpack_from_be64 v) rest \<noteq> None"
    by (auto split: if_splits option.splits)
  from lookup_nid_node [OF l] fetch_node_enoent [of m "unpack_from_be64 v"]
  have fn: "mstor_fetch_node m (unpack_from_be64 v) \<noteq> Inl ENOENT" by auto
  show "mstor_fetch_child P m mreq pc pn \<noteq> Inl ENOENT"
    using k g fn
      mode_check_not_enoent [of P pn mreq "MSTOR_PERM_EXEC OR ucast (MNODE_IS_DIR P)"]
    by (auto simp: mstor_fetch_child_def split: sum.splits)
  assume "mstor_fetch_child P m mreq pc pn = Inr c"
  then have "mstor_fetch_node m (unpack_from_be64 v) = Inr c"
    using k g by (auto simp: mstor_fetch_child_def split: sum.splits if_splits)
  from fetch_node_val [OF this] have "nid c = unpack_from_be64 v" by simp
  with l show "lookup_nid P (ldb m) (nid c) rest \<noteq> None" by simp
qed

lemma path_loop_existing:
  "lookup_nid P (ldb m) (nid cnode) comps \<noteq> None \<Longrightarrow>
   path_loop P m mreq pcomp comps pnode cnode
     = (case traverse P m mreq pcomp comps pnode cnode of
          Inl e \<Rightarrow> Returned (m, Inl e)
        | Inr (pc, pn, cn) \<Rightarrow> Reached m mreq pc pn cn)"
proof (induction comps arbitrary: pcomp pnode cnode)
  case Nil
  then show ?case by simp
next
  case (Cons pc' rest)
  show ?case
  proof (cases "mstor_fetch_child P m mreq pc' cnode")
    case (Inl e)
    with fetch_child_existing(1) [OF Cons.prems, of mreq] have "e \<noteq> ENOENT" by auto
    with Inl show ?thesis by simp
  next
    case (Inr c')
    from fetch_child_existing(2) [OF Cons.prems Inr]
    have "lookup_nid P (ldb m) (nid c') rest \<noteq> None" .
    from Cons.IH [OF this] Inr show ?thesis by simp
  qed
qed

lemma full_path_path_mreq: "full_path (path_mreq P mreq) = full_path mreq"
  by (simp add: path_mreq_def Let_def)

lemma path_operation_existing:
  assumes "path_exists P (ldb m) (full_path mreq)"
  shows "mstor_do_path_operation P m mreq
           = (case resolve P m mreq of
                Inl e \<Rightarrow> (m, Inl e)
              | Inr (pc, pn, cn) \<Rightarrow> path_switch P m (path_mreq P mreq) pc pn cn)"
proof -
  from assms obtain p where
    cp: "canonicalize_path P (full_path mreq) = Inr p"
    and lk: "lookup_nid P (ldb m) MSTOR_ROOT_NID (snd (path_components p)) \<noteq> None"
    by (auto simp: path_exists_def split: sum.splits)
  show ?thesis
  proof (cases "mstor_fetch_node m MSTOR_ROOT_NID")
    case (Inl e)
    with cp show ?thesis
      by (simp add: mstor_do_path_operation_def resolve_def Let_def full_path_path_mreq)
  next
    case (Inr root)
    from fetch_node_val [OF Inr] lk
    have "lookup_nid P (ldb m) (nid root) (snd (path_components p)) \<noteq> None" by simp
    from path_loop_existing [OF this] Inr cp show ?thesis
      by (auto simp: mstor_do_path_operation_def resolve_def Let_def full_path_path_mreq
            split: sum.splits)
  qed
qed

text \<open>
  Claim C9: for every path all of whose components already exist, mkdirs returns success
  and performs no write, even when the terminal node is a regular file.

  As stated the claim fails in its first half only. For every request on a path that
  exists, mkdirs leaves the store, counters included, as it was given, and its result is
  that of the traversal: success when the requester traverses the path (\<open>resolve\<close>), and
  otherwise the error of the walker's check on a node above the terminal. Nothing is asked
  of the terminal node, which may be a regular file.
\<close>

theorem mkdirs_existing_path_no_write:
  assumes "op mreq = MSTOR_OP_MKDIRS mode ctime"
  shows "(path_exists P (ldb m) (full_path mreq) \<longrightarrow>
            mstor_do_path_operation P m mreq
              = (m, case resolve P m mreq of Inl e \<Rightarrow> Inl e | Inr r \<Rightarrow> Inr NoReply))
       \<and> (resolve P m mreq = Inr (pcomp, pnode, cnode) \<longrightarrow>
            mstor_do_path_operation P m mreq = (m, Inr NoReply))"
proof (intro conjI impI)
  assume "path_exists P (ldb m) (full_path mreq)"
  from path_operation_existing [OF this] assms
  show "mstor_do_path_operation P m mreq
          = (m, case resolve P m mreq of Inl e \<Rightarrow> Inl e | Inr r \<Rightarrow> Inr NoReply)"
    by (auto simp: path_switch_def op_path_mreq split: sum.splits)
next
  assume "resolve P m mreq = Inr (pcomp, pnode, cnode)"
  from resolve_path_operation(1) [OF this] assms
  show "mstor_do_path_operation P m mreq = (m, Inr NoReply)"
    by (simp add: path_switch_def op_path_mreq)
qed

text \<open>
  Alice's \<^verbatim>\<open>mkdirs("/f")\<close> on the store where \<^verbatim>\<open>/f\<close> is her regular file: success, same
  store. Her \<^verbatim>\<open>mkdirs("/a/b")\<close> where the superuser has made \<^verbatim>\<open>/a/b\<close> with mode 0000: the
  error of the traversal, same store.
\<close>

theorem mkdirs_existing_path_no_write_witness:
  "path_exists x86 (ldb store_f) ''/f''
   \<and> resolve x86 store_f ((request ''alice'' ''/f'' (MSTOR_OP_MKDIRS 0x1ED 300))\<lparr>user := alice\<rparr>)
     = Inr (cstr ''f'', node_root, node_f)
   \<and> get_mode_and_type (payload 0x1A4 200 200 1000 1000) AND MNODE_IS_DIR x86 = 0
   \<and> mstor_do_path_operation x86 store_f
        ((request ''alice'' ''/f'' (MSTOR_OP_MKDIRS 0x1ED 300))\<lparr>user := alice\<rparr>)
     = (store_f, Inr NoReply)
   \<and> path_exists x86 (ldb store_a_b) ''/a/b''
   \<and> mstor_do_path_operation x86 store_a_b
        ((request ''alice'' ''/a/b'' (MSTOR_OP_MKDIRS 0x1ED 300))\<lparr>user := alice\<rparr>)
     = (store_a_b, Inl EPERM)"
proof -
  let ?r = "(request ''alice'' ''/f'' (MSTOR_OP_MKDIRS 0x1ED 300))\<lparr>user := alice\<rparr>"
  let ?q = "(request ''alice'' ''/a/b'' (MSTOR_OP_MKDIRS 0x1ED 300))\<lparr>user := alice\<rparr>"
  have e: "path_exists x86 (ldb store_f) (full_path ?r)" by code_simp
  have r: "resolve x86 store_f ?r = Inr (cstr ''f'', node_root, node_f)" by code_simp
  have o: "op ?r = MSTOR_OP_MKDIRS 0x1ED 300" by (simp add: request_def)
  have f: "get_mode_and_type (payload 0x1A4 200 200 1000 1000) AND MNODE_IS_DIR x86 = 0"
    by code_simp
  have e2: "path_exists x86 (ldb store_a_b) (full_path ?q)" by code_simp
  have r2: "resolve x86 store_a_b ?q = Inl EPERM" by code_simp
  have o2: "op ?q = MSTOR_OP_MKDIRS 0x1ED 300" by (simp add: request_def)
  from mkdirs_existing_path_no_write [OF o, of x86 store_f] e r
  have a: "mstor_do_path_operation x86 store_f ?r = (store_f, Inr NoReply)" by simp
  from mkdirs_existing_path_no_write [OF o2, of x86 store_a_b] e2 r2
  have b: "mstor_do_path_operation x86 store_a_b ?q = (store_a_b, Inl EPERM)" by simp
  from e e2 r f a b show ?thesis by (simp add: request_def)
qed

text \<open>
  The claim C9 as stated, refuted: in the store where the superuser has made \<^verbatim>\<open>/a/b\<close> with
  mode 0000 (\<open>store_a_b_reached\<close>), the path \<^verbatim>\<open>/a/b\<close> exists, and alice's \<^verbatim>\<open>mkdirs("/a/b")\<close>
  returns \<^verbatim>\<open>-EPERM\<close>, because \<^verbatim>\<open>/a\<close> grants her no execute.
\<close>

theorem mkdirs_existing_path_denied:
  "path_exists x86 (ldb store_a_b) ''/a/b''
   \<and> lookup_nid x86 (ldb store_a_b) MSTOR_ROOT_NID [cstr ''a'', cstr ''b''] = Some 2
   \<and> mstor_do_operation x86 store_a_b (request ''alice'' ''/a/b'' (MSTOR_OP_MKDIRS 0x1ED 300))
     = (store_a_b, Inl EPERM)"
  by code_simp

section \<open>Chmod and utimes\<close>

lemma length_pack_to_be16 [simp]: "length (pack_to_be16 w) = 2"
  by (simp add: pack_to_be16_def)

lemma unpack_from_be64_prefix: "unpack_from_be64 (pack_to_be64 x @ rest) = x"
  using unpack_pack64 [of x] by (simp add: unpack_from_be64_def)

lemma unpack_from_be16_prefix: "unpack_from_be16 (pack_to_be16 x @ rest) = x"
  using unpack_pack16 [of x] by (simp add: unpack_from_be16_def)

lemma get_set_mode_and_type:
  "32 \<le> length v \<Longrightarrow> get_mode_and_type (set_mode_and_type v x) = x"
  by (simp add: get_mode_and_type_def set_mode_and_type_def unpack_from_be16_prefix)

lemma get_set_atime: "8 \<le> length v \<Longrightarrow> get_atime (set_atime v x) = x"
  by (simp add: get_atime_def set_atime_def unpack_from_be64_prefix)

lemma get_set_mtime: "get_mtime (set_mtime v x) = x"
  by (simp add: get_mtime_def set_mtime_def unpack_from_be64_prefix)

lemma get_atime_set_mtime: "get_atime (set_mtime v x) = get_atime v"
  by (simp add: get_atime_def set_mtime_def)

lemma get_mtime_set_atime: "8 \<le> length v \<Longrightarrow> get_mtime (set_atime v x) = get_mtime v"
  by (simp add: get_mtime_def set_atime_def unpack_from_be64_def)

lemma length_set_atime: "16 \<le> length v \<Longrightarrow> length (set_atime v x) = length v"
  by (simp add: set_atime_def)

lemma chmod_payload_mode:
  "length v = sizeof_mnode_payload \<Longrightarrow>
   get_mode_and_type (chmod_payload P v mode)
     = (if get_mode_and_type v AND MNODE_IS_DIR P \<noteq> 0 then mode OR MNODE_IS_DIR P
        else mode AND NOT (MNODE_IS_DIR P))"
  by (simp add: chmod_payload_def Let_def get_set_mode_and_type sizeof_mnode_payload_def)

lemma utimes_payload_times:
  assumes "length v = sizeof_mnode_payload"
  shows "get_atime (utimes_payload P v atime mtime)
           = (if atime = RF_INVAL_TIME P then get_atime v else atime)"
    and "get_mtime (utimes_payload P v atime mtime)
           = (if mtime = RF_INVAL_TIME P then get_mtime v else mtime)"
  using assms
  by (simp_all add: utimes_payload_def Let_def sizeof_mnode_payload_def get_set_atime
        get_set_mtime get_atime_set_mtime get_mtime_set_atime)

text \<open>
  Neither handler checks anything on the target node. For a request that the walker lets
  through (\<open>resolve\<close>), whoever its user is and whatever the target's uid, gid and mode are,
  \<^verbatim>\<open>mstor_do_path_operation\<close> returns 0 and its only write is one put of the target's node
  record, which the store then holds: with the requested mode (the directory flag stays as
  it was) for chmod, with the requested times (a sentinel leaves the old time) for utimes.
\<close>

theorem chmod_utimes_skip_target_check:
  assumes "resolve P m mreq = Inr (pcomp, pnode, cnode)"
    and "op mreq = MSTOR_OP_CHMOD mode \<or> op mreq = MSTOR_OP_UTIMES atime mtime"
  shows "\<exists>v v'. val cnode = Some v
           \<and> leveldb_get (ldb m) (mnode_key (nid cnode)) = Some v
           \<and> mstor_do_path_operation P m mreq
               = (m\<lparr>ldb := leveldb_put (ldb m) (mnode_key (nid cnode)) v'\<rparr>, Inr NoReply)
           \<and> leveldb_get (ldb (fst (mstor_do_path_operation P m mreq))) (mnode_key (nid cnode))
               = Some v'
           \<and> (op mreq = MSTOR_OP_CHMOD mode \<longrightarrow>
                v' = chmod_payload P v mode
                \<and> get_mode_and_type v'
                    = (if get_mode_and_type v AND MNODE_IS_DIR P \<noteq> 0
                       then mode OR MNODE_IS_DIR P else mode AND NOT (MNODE_IS_DIR P)))
           \<and> (op mreq = MSTOR_OP_UTIMES atime mtime \<longrightarrow>
                v' = utimes_payload P v atime mtime
                \<and> get_atime v' = (if atime = RF_INVAL_TIME P then get_atime v else atime)
                \<and> get_mtime v' = (if mtime = RF_INVAL_TIME P then get_mtime v else mtime))"
proof -
  from resolve_path_operation [OF assms(1)] obtain v where
    sw: "mstor_do_path_operation P m mreq = path_switch P m (path_mreq P mreq) pcomp pnode cnode"
    and v: "val cnode = Some v" "length v = sizeof_mnode_payload"
      "leveldb_get (ldb m) (mnode_key (nid cnode)) = Some v"
    by blast
  from assms(2) show ?thesis
  proof
    assume o: "op mreq = MSTOR_OP_CHMOD mode"
    with sw v chmod_payload_mode [OF v(2)] show ?thesis
      by (intro exI [of _ v] exI [of _ "chmod_payload P v mode"])
         (simp add: path_switch_def op_path_mreq mstor_do_chmod_def get_put_same)
  next
    assume o: "op mreq = MSTOR_OP_UTIMES atime mtime"
    with sw v utimes_payload_times [OF v(2)] show ?thesis
      by (intro exI [of _ v] exI [of _ "utimes_payload P v atime mtime"])
         (simp add: path_switch_def op_path_mreq mstor_do_utimes_def get_put_same)
  qed
qed

text \<open>
  Alice, who is not the superuser, on \<^verbatim>\<open>/g\<close>, a file of mode 0000 that bob owns: she sets
  its mode to 0777, and its atime to 300.
\<close>

theorem chmod_utimes_skip_target_check_witness:
  "resolve x86 store_g ((request ''alice'' ''/g'' (MSTOR_OP_CHMOD 0x1FF))\<lparr>user := alice\<rparr>)
     = Inr (cstr ''g'', node_root, node_g)
   \<and> mstor_do_path_operation x86 store_g
        ((request ''alice'' ''/g'' (MSTOR_OP_CHMOD 0x1FF))\<lparr>user := alice\<rparr>)
     = (store_g\<lparr>ldb := leveldb_put (ldb store_g) (mnode_key 1)
                         (payload 0x1FF 200 200 1001 1001)\<rparr>, Inr NoReply)
   \<and> resolve x86 store_g
        ((request ''alice'' ''/g'' (MSTOR_OP_UTIMES 300 0xffffffffffffffff))\<lparr>user := alice\<rparr>)
     = Inr (cstr ''g'', node_root, node_g)
   \<and> mstor_do_path_operation x86 store_g
        ((request ''alice'' ''/g'' (MSTOR_OP_UTIMES 300 0xffffffffffffffff))\<lparr>user := alice\<rparr>)
     = (store_g\<lparr>ldb := leveldb_put (ldb store_g) (mnode_key 1)
                         (payload 0 200 300 1001 1001)\<rparr>, Inr NoReply)"
proof -
  let ?c = "(request ''alice'' ''/g'' (MSTOR_OP_CHMOD 0x1FF))\<lparr>user := alice\<rparr>"
  let ?u = "(request ''alice'' ''/g'' (MSTOR_OP_UTIMES 300 0xffffffffffffffff))\<lparr>user := alice\<rparr>"
  have rc: "resolve x86 store_g ?c = Inr (cstr ''g'', node_root, node_g)" by code_simp
  have ru: "resolve x86 store_g ?u = Inr (cstr ''g'', node_root, node_g)" by code_simp
  have oc: "op ?c = MSTOR_OP_CHMOD 0x1FF \<or> op ?c = MSTOR_OP_UTIMES 0 0"
    by (simp add: request_def)
  have ou: "op ?u = MSTOR_OP_CHMOD 0 \<or> op ?u = MSTOR_OP_UTIMES 300 0xffffffffffffffff"
    by (simp add: request_def)
  have pc: "chmod_payload x86 (payload 0 200 200 1001 1001) 0x1FF = payload 0x1FF 200 200 1001 1001"
    by code_simp
  have pu: "utimes_payload x86 (payload 0 200 200 1001 1001) 300 0xffffffffffffffff
              = payload 0 200 300 1001 1001"
    by code_simp
  from chmod_utimes_skip_target_check [OF rc oc] pc
  have c: "mstor_do_path_operation x86 store_g ?c
     = (store_g\<lparr>ldb := leveldb_put (ldb store_g) (mnode_key 1)
                         (payload 0x1FF 200 200 1001 1001)\<rparr>, Inr NoReply)"
    by (auto simp: node_g_def request_def)
  from chmod_utimes_skip_target_check [OF ru ou] pu
  have u: "mstor_do_path_operation x86 store_g ?u
     = (store_g\<lparr>ldb := leveldb_put (ldb store_g) (mnode_key 1)
                         (payload 0 200 300 1001 1001)\<rparr>, Inr NoReply)"
    by (auto simp: node_g_def request_def)
  from rc ru c u show ?thesis by simp
qed


text \<open>
  Claim C10: chmod and utimes check neither permission nor ownership on the target node:
  every request that can traverse to the node, that is, whose user holds execute
  permission on every ancestor directory, succeeds, whatever the target's uid, gid and mode
  are.

  The walker decides the traversal with \<^verbatim>\<open>mstor_mode_check\<close>, which reads the owner bits
  for everyone. In the store where the superuser has made the directory \<^verbatim>\<open>/d\<close> with mode
  0003 and the file \<^verbatim>\<open>/d/g\<close> (\<open>store_d_reached\<close>, \<open>store_d_g_reached\<close>), alice holds
  execute on \<^verbatim>\<open>/\<close> (mode 0755) and on \<^verbatim>\<open>/d\<close> through their "other" bits, as
  \<open>spec_mode_check\<close> says, and yet her chmod and her utimes of \<^verbatim>\<open>/d/g\<close> return \<^verbatim>\<open>-EPERM\<close>.
\<close>

theorem chmod_utimes_denied_despite_execute:
  "spec_mode_check x86 node_root ((request ''alice'' ''/d/g'' (MSTOR_OP_CHMOD 0x1FF))\<lparr>user := alice\<rparr>)
      (MSTOR_PERM_EXEC OR ucast (MNODE_IS_DIR x86)) = Inr ()
   \<and> spec_mode_check x86 node_d ((request ''alice'' ''/d/g'' (MSTOR_OP_CHMOD 0x1FF))\<lparr>user := alice\<rparr>)
      (MSTOR_PERM_EXEC OR ucast (MNODE_IS_DIR x86)) = Inr ()
   \<and> mstor_fetch_node store_d_g 0 = Inr node_root
   \<and> mstor_fetch_node store_d_g 1 = Inr node_d
   \<and> mstor_do_operation x86 store_d_g (request ''alice'' ''/d/g'' (MSTOR_OP_CHMOD 0x1FF))
     = (store_d_g, Inl EPERM)
   \<and> mstor_do_operation x86 store_d_g (request ''alice'' ''/d/g'' (MSTOR_OP_UTIMES 400 400))
     = (store_d_g, Inl EPERM)"
  by code_simp

end
